theory Spec2Isabelle
  imports Complex_Main "HOL-Library.Word"
begin

unbundle bit_operations_syntax

section \<open>Numbers of the program\<close>

text \<open>
  The program computes with JavaScript numbers. A finite number is modelled by the real
  it denotes (no rounding and no overflow: the exact-arithmetic reading of the code), and
  the three special values that the arithmetic of the program can produce are kept as
  values of their own: \<open>PInf\<close> and \<open>NInf\<close> for the two infinities and \<open>NaN\<close>. The
  operations below follow IEEE 754 on the special values. The sign of a zero is not
  modelled: a zero divisor is read as \<open>+0\<close>.

  What this reading leaves out. On finite arguments \<open>nadd\<close>, \<open>nmul\<close> and \<open>ndiv\<close> are the
  exact operations of the reals and \<open>nlog\<close>, \<open>nexp\<close>, \<open>nsqrt\<close> and \<open>ncos\<close> the mathematical
  functions, so that \<open>nexp (nlog x) = x\<close> for a positive \<open>x\<close> and a sum is never an
  infinity. In the 64-bit floating point of the program each operation rounds, so that
  \<open>Math.exp(Math.log(x))\<close> is \<open>x\<close> only up to rounding, and a sum or product of finite
  numbers can overflow to an infinity. Every equality and every strict inequality between
  finite numbers that is proved below is therefore a statement of exact real arithmetic;
  what the theorems say about \<open>NaN\<close> and about the infinities that come from \<open>Math.log(0)\<close>
  does not depend on rounding.
\<close>

datatype number = Fin real | PInf | NInf | NaN

fun isFinite :: "number \<Rightarrow> bool" where
  "isFinite (Fin x) = True"
| "isFinite PInf = False"
| "isFinite NInf = False"
| "isFinite NaN = False"

text \<open>\<open>a + b\<close>\<close>

fun nadd :: "number \<Rightarrow> number \<Rightarrow> number" where
  "nadd (Fin a) (Fin b) = Fin (a + b)"
| "nadd (Fin a) PInf = PInf"
| "nadd (Fin a) NInf = NInf"
| "nadd (Fin a) NaN = NaN"
| "nadd PInf (Fin b) = PInf"
| "nadd PInf PInf = PInf"
| "nadd PInf NInf = NaN"
| "nadd PInf NaN = NaN"
| "nadd NInf (Fin b) = NInf"
| "nadd NInf PInf = NaN"
| "nadd NInf NInf = NInf"
| "nadd NInf NaN = NaN"
| "nadd NaN b = NaN"

text \<open>\<open>-a\<close> and \<open>a - b\<close>\<close>

fun nneg :: "number \<Rightarrow> number" where
  "nneg (Fin a) = Fin (- a)"
| "nneg PInf = NInf"
| "nneg NInf = PInf"
| "nneg NaN = NaN"

definition nsub :: "number \<Rightarrow> number \<Rightarrow> number" where
  "nsub a b = nadd a (nneg b)"

text \<open>\<open>a * b\<close>: an infinity times zero is \<open>NaN\<close>.\<close>

fun nmul :: "number \<Rightarrow> number \<Rightarrow> number" where
  "nmul (Fin a) (Fin b) = Fin (a * b)"
| "nmul (Fin a) PInf = (if a = 0 then NaN else if 0 < a then PInf else NInf)"
| "nmul (Fin a) NInf = (if a = 0 then NaN else if 0 < a then NInf else PInf)"
| "nmul (Fin a) NaN = NaN"
| "nmul PInf (Fin b) = (if b = 0 then NaN else if 0 < b then PInf else NInf)"
| "nmul PInf PInf = PInf"
| "nmul PInf NInf = NInf"
| "nmul PInf NaN = NaN"
| "nmul NInf (Fin b) = (if b = 0 then NaN else if 0 < b then NInf else PInf)"
| "nmul NInf PInf = NInf"
| "nmul NInf NInf = PInf"
| "nmul NInf NaN = NaN"
| "nmul NaN b = NaN"

text \<open>\<open>a / b\<close>\<close>

fun ndiv :: "number \<Rightarrow> number \<Rightarrow> number" where
  "ndiv (Fin a) (Fin b) =
     (if b = 0 then (if a = 0 then NaN else if 0 < a then PInf else NInf) else Fin (a / b))"
| "ndiv (Fin a) PInf = Fin 0"
| "ndiv (Fin a) NInf = Fin 0"
| "ndiv (Fin a) NaN = NaN"
| "ndiv PInf (Fin b) = (if b < 0 then NInf else PInf)"
| "ndiv NInf (Fin b) = (if b < 0 then PInf else NInf)"
| "ndiv PInf PInf = NaN"
| "ndiv PInf NInf = NaN"
| "ndiv PInf NaN = NaN"
| "ndiv NInf PInf = NaN"
| "ndiv NInf NInf = NaN"
| "ndiv NInf NaN = NaN"
| "ndiv NaN b = NaN"

text \<open>\<open>Math.log\<close>: minus infinity at zero, \<open>NaN\<close> below.\<close>

fun nlog :: "number \<Rightarrow> number" where
  "nlog (Fin x) = (if x < 0 then NaN else if x = 0 then NInf else Fin (ln x))"
| "nlog PInf = PInf"
| "nlog NInf = NaN"
| "nlog NaN = NaN"

text \<open>\<open>Math.sqrt\<close>\<close>

fun nsqrt :: "number \<Rightarrow> number" where
  "nsqrt (Fin x) = (if x < 0 then NaN else Fin (sqrt x))"
| "nsqrt PInf = PInf"
| "nsqrt NInf = NaN"
| "nsqrt NaN = NaN"

text \<open>\<open>Math.cos\<close>\<close>

fun ncos :: "number \<Rightarrow> number" where
  "ncos (Fin x) = Fin (cos x)"
| "ncos PInf = NaN"
| "ncos NInf = NaN"
| "ncos NaN = NaN"

text \<open>\<open>Math.exp\<close>\<close>

fun nexp :: "number \<Rightarrow> number" where
  "nexp (Fin x) = Fin (exp x)"
| "nexp PInf = PInf"
| "nexp NInf = Fin 0"
| "nexp NaN = NaN"

text \<open>\<open>Math.max(a, b)\<close>: \<open>NaN\<close> as soon as one argument is.\<close>

fun nmax :: "number \<Rightarrow> number \<Rightarrow> number" where
  "nmax (Fin a) (Fin b) = Fin (max a b)"
| "nmax (Fin a) PInf = PInf"
| "nmax (Fin a) NInf = Fin a"
| "nmax (Fin a) NaN = NaN"
| "nmax PInf (Fin b) = PInf"
| "nmax PInf PInf = PInf"
| "nmax PInf NInf = PInf"
| "nmax PInf NaN = NaN"
| "nmax NInf (Fin b) = Fin b"
| "nmax NInf PInf = PInf"
| "nmax NInf NInf = NInf"
| "nmax NInf NaN = NaN"
| "nmax NaN b = NaN"

text \<open>\<open>a <= b\<close>: false as soon as one side is \<open>NaN\<close>.\<close>

fun nle :: "number \<Rightarrow> number \<Rightarrow> bool" where
  "nle (Fin a) (Fin b) = (a \<le> b)"
| "nle (Fin a) PInf = True"
| "nle (Fin a) NInf = False"
| "nle (Fin a) NaN = False"
| "nle PInf (Fin b) = False"
| "nle PInf PInf = True"
| "nle PInf NInf = False"
| "nle PInf NaN = False"
| "nle NInf (Fin b) = True"
| "nle NInf PInf = True"
| "nle NInf NInf = True"
| "nle NInf NaN = False"
| "nle NaN b = False"


section \<open>The seeded generator\<close>

text \<open>
  \<open>createSeededRandom(seed)\<close> returns a closure over the variable \<open>seed\<close>. The closure
  is modelled by its step function \<open>mulberry32\<close>, from the value of the variable before a
  call to the number returned and the value after, and by the initial value of the
  variable. \<open>| 0\<close> and the operators \<open>^\<close>, \<open>>>>\<close> and \<open>Math.imul\<close> work on the low 32
  bits: the variable is read into a 32-bit word, and is left as the signed value of one.
  Seeds are integers that a number holds exactly, so that the sums \<open>seed + 0x6D2B79F5\<close>
  and \<open>seed + i\<close> are the sums of integers.
\<close>

definition mulberry32 :: "int \<Rightarrow> real \<times> int" where
  "mulberry32 seed =
     (let seed' = (word_of_int (seed + 0x6D2B79F5) :: 32 word);
          t = (seed' XOR drop_bit 15 seed') * (1 OR seed');
          t' = (t + (t XOR drop_bit 7 t) * (61 OR t)) XOR t
      in (real (unat (t' XOR drop_bit 14 t')) / 4294967296, sint seed'))"

definition createSeededRandom :: "int \<Rightarrow> (int \<Rightarrow> real \<times> int) \<times> int" where
  "createSeededRandom seed = (mulberry32, seed)"

section \<open>The constrained samplers\<close>

text \<open>
  A random source \<open>random: () => number\<close> is a step function \<open>'s \<Rightarrow> real \<times> 's\<close> on the
  state it hides, passed together with the current state; every function that calls it
  returns the state it leaves. The draws are finite numbers.

  Both samplers compute the normal variate with the same expression (lines 64 and 107):
  \<open>Math.sqrt(-2 * Math.log(u1)) * Math.cos(2 * Math.PI * u2)\<close>.
\<close>

definition boxMuller :: "real \<Rightarrow> real \<Rightarrow> number" where
  "boxMuller u1 u2 =
     nmul (nsqrt (nmul (Fin (- 2)) (nlog (Fin u1))))
          (ncos (nmul (nmul (Fin 2) (Fin pi)) (Fin u2)))"

text \<open>
  The sampling loop of both samplers (lines 60 to 69 and 104 to 113): two draws in each
  round, \<open>u1\<close> first, and the log rate \<open>target + volatility * z\<close> pushed.
\<close>

fun sampleLogs ::
  "number \<Rightarrow> number \<Rightarrow> ('s \<Rightarrow> real \<times> 's) \<Rightarrow> nat \<Rightarrow> 's \<Rightarrow> number list \<times> 's" where
  "sampleLogs targetLog volatility random 0 s = ([], s)"
| "sampleLogs targetLog volatility random (Suc k) s =
     (let (u1, s1) = random s;
          (u2, s2) = random s1;
          z = boxMuller u1 u2;
          logReturn = nadd targetLog (nmul volatility z);
          (logs, s') = sampleLogs targetLog volatility random k s2
      in (logReturn # logs, s'))"

text \<open>
  The sum of the sampled logs, the adjustment, and the adjusted logs (lines 72 to 76 and
  116 to 120). \<open>years\<close> is an integer; a loop \<open>for (i = 0; i < years; i++)\<close> runs
  \<open>nat years\<close> times. Memory is not modelled: an array of every length exists (the
  limit of the language, below \<open>2 ^ 32\<close> elements, is beyond every run that ends).
\<close>

definition adjustLogs :: "number \<Rightarrow> int \<Rightarrow> number list \<Rightarrow> number list" where
  "adjustLogs totalTargetLog years logs =
     (let currentSum = foldl nadd (Fin 0) logs;
          adjustment = ndiv (nsub totalTargetLog currentSum) (Fin (of_int years))
      in map (\<lambda>r. nadd r adjustment) logs)"

definition adjustedLogReturns ::
  "real \<Rightarrow> int \<Rightarrow> ('s \<Rightarrow> real \<times> 's) \<Rightarrow> 's \<Rightarrow> real \<Rightarrow> number list \<times> 's" where
  "adjustedLogReturns annualReturn years random s volatility =
     (let targetLogReturn = nlog (nadd (Fin 1) (Fin annualReturn));
          totalTargetLogReturn = nmul targetLogReturn (Fin (of_int years));
          (logReturns, s') = sampleLogs targetLogReturn (Fin volatility) random (nat years) s
      in (adjustLogs totalTargetLogReturn years logReturns, s'))"

definition generateRandomizedReturns ::
  "real \<Rightarrow> int \<Rightarrow> ('s \<Rightarrow> real \<times> 's) \<Rightarrow> 's \<Rightarrow> real \<Rightarrow> number list \<times> 's" where
  "generateRandomizedReturns annualReturn years random s volatility =
     (let (adjusted, s') = adjustedLogReturns annualReturn years random s volatility
      in (map (\<lambda>logR. nsub (nexp logR) (Fin 1)) adjusted, s'))"

text \<open>
  The inflation sampler. \<open>new Array(years)\<close> raises a \<open>RangeError\<close> for a negative
  length; it is the only place where the program raises on its parameters.
\<close>

datatype error = RangeError | TypeError

definition adjustedLogInflations ::
  "real \<Rightarrow> int \<Rightarrow> ('s \<Rightarrow> real \<times> 's) \<Rightarrow> 's \<Rightarrow> real \<Rightarrow> number list \<times> 's" where
  "adjustedLogInflations inflationRate years random s volatility =
     (let targetLogInflation = nlog (nadd (Fin 1) (Fin inflationRate));
          totalTargetLogInflation = nmul targetLogInflation (Fin (of_int years));
          (logInflations, s') =
             sampleLogs targetLogInflation (Fin volatility) random (nat years) s
      in (adjustLogs totalTargetLogInflation years logInflations, s'))"

definition generateRandomizedInflation ::
  "real \<Rightarrow> int \<Rightarrow> ('s \<Rightarrow> real \<times> 's) \<Rightarrow> 's \<Rightarrow> real \<Rightarrow> error + (number list \<times> 's)" where
  "generateRandomizedInflation inflationRate years random s volatility =
     (if inflationRate = 0 then
        (if years < 0 then Inl RangeError else Inr (replicate (nat years) (Fin 0), s))
      else
        (let (adjusted, s') = adjustedLogInflations inflationRate years random s volatility
         in Inr (map (\<lambda>logI. nmax (Fin 0) (nsub (nexp logI) (Fin 1))) adjusted, s')))"

section \<open>The path simulator\<close>

record SimulationParams =
  startingAssets :: real
  annualReturn :: real
  initialContribution :: real
  contributionGrowthRate :: real
  inflationRate :: real
  years :: int

record YearData =
  year :: nat
  startingBalance :: number
  contribution :: number
  returnRate :: number
  inflationRate :: number
  growth :: number
  endingBalance :: number
  cumulativeInflation :: number
  realEndingBalance :: number

text \<open>The variables that the loop of \<open>runSimulation\<close> updates (lines 136 to 141).\<close>

record LoopVars =
  balance :: number
  contribution :: number
  totalContributions :: number
  totalGrowth :: number
  cumulativeInflation :: number
  yearlyData :: "YearData list"

record SimulationResult =
  yearlyData :: "YearData list"
  finalBalance :: number
  totalContributions :: number
  totalGrowth :: number

text \<open>
  One round of the loop (lines 144 to 176), for the index \<open>i\<close>. Both arrays have
  \<open>years\<close> elements (\<open>length_returns\<close> and \<open>length_inflation\<close> below), so the two
  reads are inside them.
\<close>

definition yearStep ::
  "SimulationParams \<Rightarrow> number list \<Rightarrow> number list \<Rightarrow> nat \<Rightarrow> LoopVars \<Rightarrow> LoopVars" where
  "yearStep params randomReturns randomInflations i v =
     (let yearReturn = randomReturns ! i;
          yearInflation = randomInflations ! i;
          balance1 = nadd (balance v) (LoopVars.contribution v);
          growth1 = nmul balance1 yearReturn;
          balance2 = nadd balance1 growth1;
          cumulativeInflation1 =
            nmul (LoopVars.cumulativeInflation v) (nadd (Fin 1) yearInflation)
      in \<lparr> balance = balance2,
           LoopVars.contribution =
             nmul (LoopVars.contribution v)
               (nadd (Fin 1) (Fin (contributionGrowthRate params))),
           LoopVars.totalContributions =
             nadd (LoopVars.totalContributions v) (LoopVars.contribution v),
           LoopVars.totalGrowth = nadd (LoopVars.totalGrowth v) growth1,
           LoopVars.cumulativeInflation = cumulativeInflation1,
           LoopVars.yearlyData = LoopVars.yearlyData v @
             [\<lparr> year = i + 1,
                startingBalance = balance v,
                YearData.contribution = LoopVars.contribution v,
                returnRate = yearReturn,
                YearData.inflationRate = yearInflation,
                growth = growth1,
                endingBalance = balance2,
                YearData.cumulativeInflation = cumulativeInflation1,
                realEndingBalance = ndiv balance2 cumulativeInflation1 \<rparr>] \<rparr>)"

definition initialVars :: "SimulationParams \<Rightarrow> LoopVars" where
  "initialVars params =
     \<lparr> balance = Fin (startingAssets params),
       LoopVars.contribution = Fin (initialContribution params),
       LoopVars.totalContributions = Fin 0,
       LoopVars.totalGrowth = Fin 0,
       LoopVars.cumulativeInflation = Fin 1,
       LoopVars.yearlyData = [] \<rparr>"

text \<open>
  \<open>runSimulation\<close>: the returns are sampled first, the inflation rates second, from
  the same source, with the default volatilities 0.30 and 0.015.
\<close>

definition runSimulation ::
  "SimulationParams \<Rightarrow> ('s \<Rightarrow> real \<times> 's) \<Rightarrow> 's \<Rightarrow> error + (SimulationResult \<times> 's)" where
  "runSimulation params random s =
     (let (randomReturns, s1) =
            generateRandomizedReturns (annualReturn params) (years params) random s (3 / 10)
      in case generateRandomizedInflation (SimulationParams.inflationRate params)
                (years params) random s1 (15 / 1000) of
           Inl e \<Rightarrow> Inl e
         | Inr (randomInflations, s2) \<Rightarrow>
             (let v = fold (yearStep params randomReturns randomInflations)
                        [0..<nat (years params)] (initialVars params)
              in Inr (\<lparr> SimulationResult.yearlyData = LoopVars.yearlyData v,
                          finalBalance = balance v,
                          SimulationResult.totalContributions = LoopVars.totalContributions v,
                          SimulationResult.totalGrowth = LoopVars.totalGrowth v \<rparr>, s2)))"

section \<open>The Monte Carlo runner\<close>

text \<open>
  The loop of \<open>runMonteCarloSimulation\<close> over the path indices: each path gets a
  generator of its own, seeded with \<open>seed + i\<close>; an exception of a path ends the loop.
\<close>

fun runPaths :: "SimulationParams \<Rightarrow> int \<Rightarrow> nat list \<Rightarrow> error + SimulationResult list" where
  "runPaths params seed [] = Inr []"
| "runPaths params seed (i # is) =
     (let simulationSeed = seed + int i;
          (random, s) = createSeededRandom simulationSeed
      in case runSimulation params random s of
           Inl e \<Rightarrow> Inl e
         | Inr (result, s') \<Rightarrow>
             (case runPaths params seed is of
                Inl e \<Rightarrow> Inl e
              | Inr results \<Rightarrow> Inr (result # results)))"

text \<open>
  \<open>runMonteCarloSimulation(params, numSimulations = 100, seed = Date.now())\<close>. An
  argument left out is \<open>None\<close>. The first argument of the model, \<open>now\<close>, is what
  \<open>Date.now()\<close> returns at the time of the call: the clock is the only thing outside its
  arguments that the function can read.
\<close>

definition runMonteCarloSimulation ::
  "int \<Rightarrow> SimulationParams \<Rightarrow> int option \<Rightarrow> int option \<Rightarrow> error + SimulationResult list" where
  "runMonteCarloSimulation now params numSimulations seed =
     (let numSimulations' = (case numSimulations of None \<Rightarrow> 100 | Some n \<Rightarrow> n);
          seed' = (case seed of None \<Rightarrow> now | Some sd \<Rightarrow> sd)
      in runPaths params seed' [0..<nat numSimulations'])"

section \<open>The percentile aggregator\<close>

text \<open>
  \<open>.sort((a, b) => a - b)\<close>: an element goes behind the elements that the comparator
  puts before it (\<open>a - b > 0\<close>). The comparator is consistent on lists without \<open>NaN\<close>,
  where every sort of the language standard returns this list; on a list with \<open>NaN\<close> the
  standard leaves the order to the implementation, and this is one such order.
\<close>

fun positive :: "number \<Rightarrow> bool" where
  "positive (Fin x) = (0 < x)"
| "positive PInf = True"
| "positive NInf = False"
| "positive NaN = False"

fun insertAscending :: "number \<Rightarrow> number list \<Rightarrow> number list" where
  "insertAscending a [] = [a]"
| "insertAscending a (b # bs) =
     (if positive (nsub a b) then b # insertAscending a bs else a # b # bs)"

definition sortAscending :: "number list \<Rightarrow> number list" where
  "sortAscending xs = foldr insertAscending xs []"

text \<open>Reading an array at an index: \<open>undefined\<close> (\<open>None\<close>) outside the array.\<close>

definition arrayRead :: "'a list \<Rightarrow> int \<Rightarrow> 'a option" where
  "arrayRead xs i = (if 0 \<le> i \<and> i < int (length xs) then Some (xs ! nat i) else None)"

text \<open>
  The balances of one period over all paths (lines 222 to 225). Reading a field of
  \<open>sim.yearlyData[t]\<close> raises a \<open>TypeError\<close> when the path has no period \<open>t\<close>.
\<close>

fun yearEndBalances :: "SimulationResult list \<Rightarrow> bool \<Rightarrow> nat \<Rightarrow> error + number list" where
  "yearEndBalances [] useRealValues t = Inr []"
| "yearEndBalances (sim # sims) useRealValues t =
     (if t < length (SimulationResult.yearlyData sim) then
        (case yearEndBalances sims useRealValues t of
           Inl e \<Rightarrow> Inl e
         | Inr bs \<Rightarrow>
             Inr ((if useRealValues
                   then realEndingBalance (SimulationResult.yearlyData sim ! t)
                   else endingBalance (SimulationResult.yearlyData sim ! t)) # bs))
      else Inl TypeError)"

text \<open>The loop over the periods for one percentile (lines 221 to 230).\<close>

fun percentileBalances ::
  "SimulationResult list \<Rightarrow> bool \<Rightarrow> real \<Rightarrow> nat list \<Rightarrow> error + number option list" where
  "percentileBalances sims useRealValues percentile [] = Inr []"
| "percentileBalances sims useRealValues percentile (t # ts) =
     (case yearEndBalances sims useRealValues t of
        Inl e \<Rightarrow> Inl e
      | Inr bs \<Rightarrow>
          (let sorted = sortAscending bs;
               index = \<lfloor>percentile / 100 * real (length sorted)\<rfloor>;
               picked = arrayRead sorted (min index (int (length sorted) - 1))
           in case percentileBalances sims useRealValues percentile ts of
                Inl e \<Rightarrow> Inl e
              | Inr balances \<Rightarrow> Inr (picked # balances)))"

text \<open>The loop over the percentiles (lines 218 to 233); the \<open>Map\<close> is a map.\<close>

fun percentileLoop ::
  "SimulationResult list \<Rightarrow> bool \<Rightarrow> nat \<Rightarrow> real list \<Rightarrow> (real \<rightharpoonup> number option list)
     \<Rightarrow> error + (real \<rightharpoonup> number option list)" where
  "percentileLoop sims useRealValues n [] result = Inr result"
| "percentileLoop sims useRealValues n (percentile # percentiles) result =
     (case percentileBalances sims useRealValues percentile [0..<n] of
        Inl e \<Rightarrow> Inl e
      | Inr balances \<Rightarrow>
          percentileLoop sims useRealValues n percentiles (result(percentile \<mapsto> balances)))"

text \<open>
  \<open>calculatePercentiles\<close>: \<open>simulations[0].yearlyData\<close> raises a \<open>TypeError\<close> on the
  empty array.
\<close>

definition calculatePercentiles ::
  "SimulationResult list \<Rightarrow> real list \<Rightarrow> bool \<Rightarrow> error + (real \<rightharpoonup> number option list)" where
  "calculatePercentiles simulations percentiles useRealValues =
     (case simulations of
        [] \<Rightarrow> Inl TypeError
      | sim0 # rest \<Rightarrow>
          percentileLoop simulations useRealValues
            (length (SimulationResult.yearlyData sim0)) percentiles Map.empty)"

section \<open>Draws, products and inputs of the examples\<close>

text \<open>The first \<open>k\<close> numbers that a source returns from the state \<open>s\<close>.\<close>

fun draws :: "('s \<Rightarrow> real \<times> 's) \<Rightarrow> 's \<Rightarrow> nat \<Rightarrow> real list" where
  "draws random s 0 = []"
| "draws random s (Suc k) = (let (u, s') = random s in u # draws random s' k)"

text \<open>
  The draws are used in pairs \<open>u1\<close>, \<open>u2\<close>. \<open>u1InRange\<close> says that the first draw of
  every pair has a finite logarithm with a square root: \<open>0 < u1 \<le> 1\<close>.
\<close>

fun u1InRange :: "real list \<Rightarrow> bool" where
  "u1InRange (u1 # u2 # us) = (0 < u1 \<and> u1 \<le> 1 \<and> u1InRange us)"
| "u1InRange us = True"

text \<open>The compounded factor of a sequence of rates, the product of all \<open>1 + r\<close>.\<close>

definition compounded :: "number list \<Rightarrow> number" where
  "compounded rs = foldl (\<lambda>p r. nmul p (nadd (Fin 1) r)) (Fin 1) rs"

text \<open>Two sources without state: one returns 0 at every call, the other 1/2.\<close>

definition zeroSource :: "unit \<Rightarrow> real \<times> unit" where
  "zeroSource s = (0, s)"

definition halfSource :: "unit \<Rightarrow> real \<times> unit" where
  "halfSource s = (1 / 2, s)"

text \<open>
  A source that returns the numbers of a list one after the other, and 1/2 once the list
  is used up. Its state is the rest of the list.
\<close>

fun tapeSource :: "real list \<Rightarrow> real \<times> real list" where
  "tapeSource [] = (1 / 2, [])"
| "tapeSource (u # us) = (u, us)"

text \<open>The parameters of the scenario of the specification, over \<open>n\<close> years.\<close>

definition scenario :: "int \<Rightarrow> SimulationParams" where
  "scenario n =
     \<lparr> startingAssets = 100000, annualReturn = 7 / 100, initialContribution = 20000,
       contributionGrowthRate = 5 / 100, SimulationParams.inflationRate = 25 / 1000,
       years = n \<rparr>"

text \<open>
  The inflation rates before the floor: \<open>Math.exp(logI) - 1\<close> for the adjusted logs
  (line 124 without \<open>Math.max\<close>).
\<close>

definition rawInflationRates ::
  "real \<Rightarrow> int \<Rightarrow> ('s \<Rightarrow> real \<times> 's) \<Rightarrow> 's \<Rightarrow> real \<Rightarrow> number list" where
  "rawInflationRates target n random s volatility =
     map (\<lambda>logI. nsub (nexp logI) (Fin 1))
       (fst (adjustedLogInflations target n random s volatility))"

text \<open>Parameters outside every sane range, over \<open>n\<close> years.\<close>

definition outOfRangeParams :: "int \<Rightarrow> SimulationParams" where
  "outOfRangeParams n =
     \<lparr> startingAssets = - 100, annualReturn = 10, initialContribution = - 50,
       contributionGrowthRate = 5, SimulationParams.inflationRate = 0, years = n \<rparr>"

text \<open>
  \<open>a <= b\<close> on elements read from an array: an \<open>undefined\<close> element compares false.
\<close>

fun jsLe :: "number option \<Rightarrow> number option \<Rightarrow> bool" where
  "jsLe (Some a) (Some b) = nle a b"
| "jsLe a b = False"

text \<open>
  The balance of a period that \<open>calculatePercentiles\<close> reads for a view, and the lists of
  results none of whose balances of that view is \<open>NaN\<close>.
\<close>

definition shownBalance :: "bool \<Rightarrow> YearData \<Rightarrow> number" where
  "shownBalance useRealValues yd = (if useRealValues then realEndingBalance yd else endingBalance yd)"

definition balancesNotNaN :: "SimulationResult list \<Rightarrow> bool \<Rightarrow> bool" where
  "balancesNotNaN sims useRealValues =
     list_all (\<lambda>sim. list_all (\<lambda>yd. shownBalance useRealValues yd \<noteq> NaN)
                       (SimulationResult.yearlyData sim)) sims"


text \<open>
  Two results for the examples: a path of one year that starts at \<open>b\<close> and neither gains
  nor receives anything, and the path of one year that \<open>runSimulation\<close> returns for the
  scenario when both samplers draw 0.
\<close>

definition flatPath :: "real \<Rightarrow> SimulationResult" where
  "flatPath b =
     \<lparr> SimulationResult.yearlyData =
         [\<lparr> year = 1, startingBalance = Fin b, YearData.contribution = Fin 0,
            returnRate = Fin 0, YearData.inflationRate = Fin 0, growth = Fin 0,
            endingBalance = Fin b, YearData.cumulativeInflation = Fin 1,
            realEndingBalance = Fin b \<rparr>],
       finalBalance = Fin b,
       SimulationResult.totalContributions = Fin 0,
       SimulationResult.totalGrowth = Fin 0 \<rparr>"

definition degeneratePath :: SimulationResult where
  "degeneratePath =
     \<lparr> SimulationResult.yearlyData =
         [\<lparr> year = 1, startingBalance = Fin 100000, YearData.contribution = Fin 20000,
            returnRate = NaN, YearData.inflationRate = NaN, growth = NaN,
            endingBalance = NaN, YearData.cumulativeInflation = NaN,
            realEndingBalance = NaN \<rparr>],
       finalBalance = NaN,
       SimulationResult.totalContributions = Fin 20000,
       SimulationResult.totalGrowth = NaN \<rparr>"

section \<open>The normal variate\<close>

lemma boxMuller_Fin:
  assumes "0 < u1" "u1 \<le> 1"
  shows "boxMuller u1 u2 = Fin (sqrt (- 2 * ln u1) * cos (2 * pi * u2))"
proof -
  have "ln u1 \<le> 0" using assms by simp
  then have "\<not> (- 2 * ln u1 < 0)" by simp
  then show ?thesis using assms by (simp add: boxMuller_def)
qed

section \<open>The sampled logs and their adjustment\<close>

lemma sampleLogs_Fin:
  assumes "u1InRange (draws random s (2 * n))"
  shows "\<exists>ls. fst (sampleLogs (Fin T) (Fin v) random n s) = map Fin ls \<and> length ls = n"
  using assms
proof (induction n arbitrary: s)
  case 0
  then show ?case by simp
next
  case (Suc n)
  obtain u1 s1 where r1: "random s = (u1, s1)" by (cases "random s")
  obtain u2 s2 where r2: "random s1 = (u2, s2)" by (cases "random s1")
  from Suc.prems r1 r2 have ok: "0 < u1" "u1 \<le> 1"
    and rest: "u1InRange (draws random s2 (2 * n))"
    by simp_all
  from Suc.IH [OF rest] obtain ls where
    ls: "fst (sampleLogs (Fin T) (Fin v) random n s2) = map Fin ls" "length ls = n" by blast
  have "fst (sampleLogs (Fin T) (Fin v) random (Suc n) s)
        = map Fin ((T + v * (sqrt (- 2 * ln u1) * cos (2 * pi * u2))) # ls)"
    using r1 r2 ls ok
    by (cases "sampleLogs (Fin T) (Fin v) random n s2") (simp add: boxMuller_Fin)
  then show ?case using ls(2) by (metis length_Cons)
qed

lemma foldl_nadd_Fin: "foldl nadd (Fin a) (map Fin ls) = Fin (a + sum_list ls)"
  by (induction ls arbitrary: a) (simp_all add: add.assoc)

lemma adjustLogs_Fin:
  assumes "n \<noteq> 0"
  shows "adjustLogs (Fin tot) n (map Fin ls)
         = map (\<lambda>l. Fin (l + (tot - sum_list ls) / of_int n)) ls"
  using assms by (simp add: adjustLogs_def foldl_nadd_Fin nsub_def)

lemma prod_exp_shift:
  "prod_list (map (\<lambda>l. exp (l + c)) ls) = exp (sum_list ls + real (length ls) * c)"
  by (induction ls) (simp_all add: exp_add algebra_simps)

lemma compounded_target:
  assumes a: "- 1 < (a::real)" and y: "0 < n" and n: "length ls = nat n"
  shows "prod_list (map (\<lambda>l. exp (l + (ln (1 + a) * of_int n - sum_list ls) / of_int n)) ls)
         = (1 + a) ^ nat n"
proof -
  have ry: "real (length ls) = of_int n" using n y by simp
  have nz: "(of_int n :: real) \<noteq> 0" using y by simp
  have "sum_list ls + real (length ls) * ((ln (1 + a) * of_int n - sum_list ls) / of_int n)
        = ln (1 + a) * real (nat n)"
    using nz y by (simp add: ry field_simps)
  then have "prod_list (map (\<lambda>l. exp (l + (ln (1 + a) * of_int n - sum_list ls) / of_int n)) ls)
        = exp (ln (1 + a) * real (nat n))"
    by (simp only: prod_exp_shift)
  also have "\<dots> = exp (ln (1 + a)) ^ nat n"
    by (rule exp_of_nat2_mult)
  also have "\<dots> = (1 + a) ^ nat n" using a by simp
  finally show ?thesis .
qed

lemma foldl_compound_Fin:
  "foldl (\<lambda>p r. nmul p (nadd (Fin 1) r)) (Fin p) (map Fin rs)
   = Fin (p * prod_list (map (\<lambda>r. 1 + r) rs))"
  by (induction rs arbitrary: p) (simp_all add: mult.assoc)

lemma compounded_Fin: "compounded (map Fin rs) = Fin (prod_list (map (\<lambda>r. 1 + r) rs))"
  by (simp add: compounded_def foldl_compound_Fin)

section \<open>The return sampler\<close>

lemma returns_Fin:
  assumes a: "- 1 < target" and y: "0 < n"
    and d: "u1InRange (draws random s (2 * nat n))"
  shows "\<exists>ls. length ls = nat n \<and>
           fst (generateRandomizedReturns target n random s volatility)
             = map (\<lambda>l. Fin (exp (l + (ln (1 + target) * of_int n - sum_list ls)
                                         / of_int n) - 1)) ls"
proof -
  obtain ls where ls:
    "fst (sampleLogs (Fin (ln (1 + target))) (Fin volatility) random (nat n) s) = map Fin ls"
    "length ls = nat n"
    using sampleLogs_Fin [OF d] by blast
  have tl: "nlog (Fin (1 + target)) = Fin (ln (1 + target))"
    using a by simp
  have "fst (generateRandomizedReturns target n random s volatility)
        = map (\<lambda>l. Fin (exp (l + (ln (1 + target) * of_int n - sum_list ls)
                                         / of_int n) - 1)) ls"
    using ls(1) y
    by (cases "sampleLogs (Fin (ln (1 + target))) (Fin volatility) random (nat n) s")
       (simp add: generateRandomizedReturns_def adjustedLogReturns_def tl adjustLogs_Fin
          nsub_def Let_def del: nlog.simps)
  with ls(2) show ?thesis by blast
qed

text \<open>
  C1, amended. For a target return above -1, a number of years above 0, every
  volatility and every source whose draws \<open>u1\<close> lie in the range \<open>0 < u1 \<le> 1\<close>, the rates
  returned by \<open>generateRandomizedReturns\<close> are finite, there are \<open>years\<close> of them, and
  the product of all \<open>1 + r\<close> is \<open>(1 + annualReturn) ^ years\<close>: the geometric mean of the
  growth factors, less 1, is the target. The arithmetic is exact (real numbers).
\<close>

theorem returns_geometric_mean:
  assumes a: "- 1 < target" and y: "0 < n"
    and d: "u1InRange (draws random s (2 * nat n))"
  shows "\<exists>rs. fst (generateRandomizedReturns target n random s volatility) = map Fin rs
           \<and> length rs = nat n
           \<and> prod_list (map (\<lambda>r. 1 + r) rs) = (1 + target) ^ nat n
           \<and> root (nat n) (prod_list (map (\<lambda>r. 1 + r) rs)) - 1 = target
           \<and> compounded (fst (generateRandomizedReturns target n random s volatility))
               = Fin ((1 + target) ^ nat n)"
proof -
  from returns_Fin [OF a y d, of volatility] obtain ls where n: "length ls = nat n"
    and g: "fst (generateRandomizedReturns target n random s volatility)
             = map (\<lambda>l. Fin (exp (l + (ln (1 + target) * of_int n - sum_list ls)
                                         / of_int n) - 1)) ls"
    by blast
  define rs where "rs = map (\<lambda>l. exp (l + (ln (1 + target) * of_int n - sum_list ls)
                                         / of_int n) - 1) ls"
  have 1: "fst (generateRandomizedReturns target n random s volatility) = map Fin rs"
    by (simp add: g rs_def comp_def)
  have 2: "length rs = nat n" by (simp add: rs_def n)
  have 3: "prod_list (map (\<lambda>r. 1 + r) rs) = (1 + target) ^ nat n"
    using compounded_target [OF a y n] by (simp add: rs_def comp_def)
  have "root (nat n) ((1 + target) ^ nat n) = 1 + target"
    using a y by (simp add: real_root_power_cancel)
  with 3 have 4: "root (nat n) (prod_list (map (\<lambda>r. 1 + r) rs)) - 1 = target"
    by simp
  have 5: "compounded (fst (generateRandomizedReturns target n random s volatility))
             = Fin ((1 + target) ^ nat n)"
    by (simp only: 1 compounded_Fin 3)
  from 1 2 3 4 5 show ?thesis by blast
qed

theorem returns_geometric_mean_witness:
  "\<exists>rs. fst (generateRandomizedReturns (7 / 100) 2 halfSource () (3 / 10)) = map Fin rs
           \<and> length rs = 2
           \<and> prod_list (map (\<lambda>r. 1 + r) rs) = (1 + 7 / 100) ^ 2
           \<and> root 2 (prod_list (map (\<lambda>r. 1 + r) rs)) - 1 = 7 / 100
           \<and> compounded (fst (generateRandomizedReturns (7 / 100) 2 halfSource () (3 / 10)))
               = Fin ((1 + 7 / 100) ^ 2)"
  using returns_geometric_mean [of "7 / 100" 2 halfSource "()" "3 / 10"]
  by (simp add: halfSource_def eval_nat_numeral)

text \<open>
  C1 as stated fails where a draw \<open>u1\<close> is 0 and where the target is below -1: the
  only rate of a single year is \<open>NaN\<close>, and so is the compounded factor.
\<close>

theorem returns_geometric_mean_counterexample:
  "fst (generateRandomizedReturns (7 / 100) 1 zeroSource () (3 / 10)) = [NaN]
   \<and> compounded (fst (generateRandomizedReturns (7 / 100) 1 zeroSource () (3 / 10)))
       \<noteq> Fin ((1 + 7 / 100) ^ 1)
   \<and> fst (generateRandomizedReturns (- 2) 1 halfSource () (3 / 10)) = [NaN]
   \<and> compounded (fst (generateRandomizedReturns (- 2) 1 halfSource () (3 / 10)))
       \<noteq> Fin ((1 + - 2) ^ 1)"
  by (simp add: generateRandomizedReturns_def adjustedLogReturns_def adjustLogs_def
      boxMuller_def zeroSource_def halfSource_def nsub_def compounded_def)

section \<open>Where the samplers leave the finite numbers\<close>

lemma boxMuller_isFinite: "isFinite (boxMuller u1 u2) \<longleftrightarrow> 0 < u1 \<and> u1 \<le> 1"
proof (cases "0 < u1 \<and> u1 \<le> 1")
  case True
  then show ?thesis by (simp add: boxMuller_Fin)
next
  case False
  then consider "u1 < 0" | "u1 = 0" | "1 < u1" by linarith
  then have "\<not> isFinite (boxMuller u1 u2)"
  proof cases
    case 1 then show ?thesis by (simp add: boxMuller_def)
  next
    case 2 then show ?thesis by (simp add: boxMuller_def)
  next
    case 3
    then have "0 < ln u1" by simp
    then have "- 2 * ln u1 < 0" by simp
    with 3 show ?thesis by (simp add: boxMuller_def)
  qed
  with False show ?thesis by simp
qed

lemma logRate_isFinite: "isFinite (nadd (Fin T) (nmul (Fin v) z)) \<longleftrightarrow> isFinite z"
  by (cases z) simp_all

lemma sampleLogs_all_finite:
  "list_all isFinite (fst (sampleLogs (Fin T) (Fin v) random k s))
   \<longleftrightarrow> u1InRange (draws random s (2 * k))"
proof (induction k arbitrary: s)
  case 0
  show ?case by simp
next
  case (Suc k)
  obtain u1 s1 where r1: "random s = (u1, s1)" by (cases "random s")
  obtain u2 s2 where r2: "random s1 = (u2, s2)" by (cases "random s1")
  obtain logs s' where rec: "sampleLogs (Fin T) (Fin v) random k s2 = (logs, s')"
    by (cases "sampleLogs (Fin T) (Fin v) random k s2")
  from Suc.IH [of s2] rec have ih: "list_all isFinite logs \<longleftrightarrow> u1InRange (draws random s2 (2 * k))"
    by simp
  show ?case
    using r1 r2 rec ih by (simp add: logRate_isFinite boxMuller_isFinite)
qed

lemma nadd_commute: "nadd a b = nadd b a"
  by (cases a; cases b) simp_all



lemma nadd_right_commute: "nadd (nadd a x) z = nadd (nadd a z) x"
  by (cases a; cases x; cases z) simp_all

lemma foldl_nadd_shift: "foldl nadd (nadd a x) xs = nadd x (foldl nadd a xs)"
proof (induction xs arbitrary: a)
  case Nil
  show ?case by (simp add: nadd_commute)
next
  case (Cons z zs)
  from Cons.IH [of "nadd a z"] show ?case by (simp add: nadd_right_commute [of a x z])
qed

lemma foldl_nadd_member: "x \<in> set xs \<Longrightarrow> \<exists>y. foldl nadd a xs = nadd x y"
proof (induction xs arbitrary: a)
  case Nil
  then show ?case by simp
next
  case (Cons z zs)
  show ?case
  proof (cases "x = z")
    case True
    then show ?thesis by (auto simp: foldl_nadd_shift)
  next
    case False
    with Cons.prems have "x \<in> set zs" by simp
    from Cons.IH [OF this] show ?thesis by simp
  qed
qed

lemma adjust_nonfinite:
  assumes n: "0 < n" and x: "x \<in> set logs" and nf: "\<not> isFinite x"
  shows "nadd x (ndiv (nsub (Fin tot) (foldl nadd (Fin 0) logs)) (Fin (of_int n))) = NaN"
proof -
  from foldl_nadd_member [OF x] obtain y where y: "foldl nadd (Fin 0) logs = nadd x y"
    by blast
  show ?thesis
    unfolding y using nf n by (cases x; cases y) (simp_all add: nsub_def)
qed

lemma adjustLogs_NaN:
  assumes n: "0 < n" and nf: "\<not> list_all isFinite logs"
  shows "NaN \<in> set (adjustLogs (Fin tot) n logs)"
proof -
  from nf obtain x where x: "x \<in> set logs" "\<not> isFinite x"
    by (auto simp: list_all_iff)
  define adj where "adj = ndiv (nsub (Fin tot) (foldl nadd (Fin 0) logs)) (Fin (of_int n))"
  have "nadd x adj \<in> set (map (\<lambda>r. nadd r adj) logs)"
    using x(1) by simp
  moreover have "nadd x adj = NaN"
    unfolding adj_def by (rule adjust_nonfinite [OF n x])
  ultimately show ?thesis
    by (simp add: adjustLogs_def Let_def adj_def)
qed

lemma adjustLogs_finite_iff:
  assumes n: "0 < n"
  shows "list_all isFinite (adjustLogs (Fin tot) n logs) \<longleftrightarrow> list_all isFinite logs"
proof (cases "list_all isFinite logs")
  case True
  then obtain ls where "logs = map Fin ls"
  proof -
    from True have "logs = map Fin (map (\<lambda>x. case x of Fin r \<Rightarrow> r | _ \<Rightarrow> 0) logs)"
      by (induction logs) (auto split: number.splits)
    then show ?thesis using that by blast
  qed
  with n True show ?thesis by (simp add: adjustLogs_Fin list_all_iff)
next
  case False
  have "\<not> isFinite NaN" by simp
  with adjustLogs_NaN [OF n False, of tot]
  have "\<not> list_all isFinite (adjustLogs (Fin tot) n logs)"
    unfolding list_all_iff by blast
  with False show ?thesis by simp
qed

lemma NaN_not_all_finite: "NaN \<in> set xs \<Longrightarrow> \<not> list_all isFinite xs"
  by (induction xs) auto

lemma NaN_in_map_iff:
  assumes "\<And>x. f x = NaN \<longleftrightarrow> x = NaN"
  shows "NaN \<in> set (map f xs) \<longleftrightarrow> NaN \<in> set xs"
proof (induction xs)
  case Nil
  show ?case by simp
next
  case (Cons x xs)
  have "NaN = f x \<longleftrightarrow> NaN = x" using assms [of x] by auto
  with Cons show ?case by simp
qed

lemma length_sampleLogs: "length (fst (sampleLogs T v random k s)) = k"
proof (induction k arbitrary: s)
  case 0
  show ?case by simp
next
  case (Suc k)
  obtain u1 s1 where r1: "random s = (u1, s1)" by (cases "random s")
  obtain u2 s2 where r2: "random s1 = (u2, s2)" by (cases "random s1")
  obtain logs s' where rec: "sampleLogs T v random k s2 = (logs, s')"
    by (cases "sampleLogs T v random k s2")
  from Suc.IH [of s2] rec have "length logs = k" by simp
  then show ?case using r1 r2 rec by simp
qed

lemma length_adjustLogs: "length (adjustLogs tot n logs) = length logs"
  by (simp add: adjustLogs_def Let_def)

lemma length_returns: "length (fst (generateRandomizedReturns target n random s vol)) = nat n"
  by (simp add: generateRandomizedReturns_def adjustedLogReturns_def Let_def
      length_adjustLogs length_sampleLogs split: prod.splits)
     (metis fst_conv length_sampleLogs)

lemma adjustedLogInflations_eq: "adjustedLogInflations = adjustedLogReturns"
  by (intro ext) (simp add: adjustedLogInflations_def adjustedLogReturns_def)

lemma adjusted_NaN_iff:
  assumes t: "- 1 < target" and n: "0 < n"
  shows "NaN \<in> set (fst (adjustedLogReturns target n random s vol))
         \<longleftrightarrow> \<not> u1InRange (draws random s (2 * nat n))"
    and "list_all isFinite (fst (adjustedLogReturns target n random s vol))
         \<longleftrightarrow> u1InRange (draws random s (2 * nat n))"
proof -
  have tl: "nlog (Fin (1 + target)) = Fin (ln (1 + target))" using t by simp
  obtain logs s' where sl:
    "sampleLogs (Fin (ln (1 + target))) (Fin vol) random (nat n) s = (logs, s')"
    by (cases "sampleLogs (Fin (ln (1 + target))) (Fin vol) random (nat n) s")
  have adj: "fst (adjustedLogReturns target n random s vol)
             = adjustLogs (Fin (ln (1 + target) * of_int n)) n logs"
    using sl by (simp add: adjustedLogReturns_def tl Let_def del: nlog.simps)
  have fin: "list_all isFinite logs \<longleftrightarrow> u1InRange (draws random s (2 * nat n))"
    using sampleLogs_all_finite [of "ln (1 + target)" vol random "nat n" s] sl by simp
  show 2: "list_all isFinite (fst (adjustedLogReturns target n random s vol))
         \<longleftrightarrow> u1InRange (draws random s (2 * nat n))"
    by (simp only: adj adjustLogs_finite_iff [OF n] fin)
  show "NaN \<in> set (fst (adjustedLogReturns target n random s vol))
         \<longleftrightarrow> \<not> u1InRange (draws random s (2 * nat n))"
  proof
    assume "NaN \<in> set (fst (adjustedLogReturns target n random s vol))"
    then have "\<not> list_all isFinite (fst (adjustedLogReturns target n random s vol))"
      by (rule NaN_not_all_finite)
    with 2 show "\<not> u1InRange (draws random s (2 * nat n))" by simp
  next
    assume "\<not> u1InRange (draws random s (2 * nat n))"
    with fin have "\<not> list_all isFinite logs" by simp
    from adjustLogs_NaN [OF n this] show "NaN \<in> set (fst (adjustedLogReturns target n random s vol))"
      by (simp only: adj)
  qed
qed

lemma rate_NaN_iff: "nsub (nexp l) (Fin 1) = NaN \<longleftrightarrow> l = NaN"
  by (cases l) (simp_all add: nsub_def)

lemma floored_NaN_iff: "nmax (Fin 0) (nsub (nexp l) (Fin 1)) = NaN \<longleftrightarrow> l = NaN"
  by (cases l) (simp_all add: nsub_def)

lemma returns_NaN_iff:
  assumes t: "- 1 < target" and n: "0 < n"
  shows "NaN \<in> set (fst (generateRandomizedReturns target n random s vol))
         \<longleftrightarrow> \<not> u1InRange (draws random s (2 * nat n))"
proof -
  have "NaN \<in> set (fst (generateRandomizedReturns target n random s vol))
        \<longleftrightarrow> NaN \<in> set (fst (adjustedLogReturns target n random s vol))"
    using NaN_in_map_iff [of "\<lambda>logR. nsub (nexp logR) (Fin 1)", OF rate_NaN_iff]
    by (cases "adjustedLogReturns target n random s vol")
       (simp add: generateRandomizedReturns_def)
  then show ?thesis by (simp only: adjusted_NaN_iff(1) [OF t n])
qed

lemma inflation_NaN_iff:
  assumes t: "- 1 < target" and z: "target \<noteq> 0" and n: "0 < n"
  shows "\<exists>rs s'. generateRandomizedInflation target n random s vol = Inr (rs, s')
           \<and> (NaN \<in> set rs \<longleftrightarrow> \<not> u1InRange (draws random s (2 * nat n)))"
proof -
  obtain adjusted s' where a: "adjustedLogReturns target n random s vol = (adjusted, s')"
    by (cases "adjustedLogReturns target n random s vol")
  have g: "generateRandomizedInflation target n random s vol
        = Inr (map (\<lambda>logI. nmax (Fin 0) (nsub (nexp logI) (Fin 1))) adjusted, s')"
    using z a by (simp add: generateRandomizedInflation_def adjustedLogInflations_eq)
  have "NaN \<in> set (map (\<lambda>logI. nmax (Fin 0) (nsub (nexp logI) (Fin 1))) adjusted)
        \<longleftrightarrow> NaN \<in> set adjusted"
    by (rule NaN_in_map_iff [OF floored_NaN_iff])
  also have "\<dots> \<longleftrightarrow> \<not> u1InRange (draws random s (2 * nat n))"
    using adjusted_NaN_iff(1) [OF t n, of random s vol] a by simp
  finally show ?thesis using g by blast
qed

text \<open>
  Neither sampler clamps \<open>u1\<close>: the draw goes into \<open>Math.log\<close> as the source returned
  it. The normal variate is finite exactly for \<open>0 < u1 \<le> 1\<close>. For a target above -1 and
  a number of years above 0, the rates that \<open>generateRandomizedReturns\<close> returns contain
  \<open>NaN\<close> exactly when some draw \<open>u1\<close> is outside that range, and so do the rates of
  \<open>generateRandomizedInflation\<close> for a target other than 0.
\<close>

lemma unclamped_u1:
  assumes t: "- 1 < target" and n: "0 < n"
  shows "(isFinite (boxMuller u1 u2) \<longleftrightarrow> 0 < u1 \<and> u1 \<le> 1)
       \<and> (NaN \<in> set (fst (generateRandomizedReturns target n random s vol))
            \<longleftrightarrow> \<not> u1InRange (draws random s (2 * nat n)))
       \<and> (target = 0 \<or>
            (\<exists>rs s'. generateRandomizedInflation target n random s vol = Inr (rs, s')
               \<and> (NaN \<in> set rs \<longleftrightarrow> \<not> u1InRange (draws random s (2 * nat n)))))"
  using boxMuller_isFinite [of u1 u2] returns_NaN_iff [OF t n, of random s vol]
    inflation_NaN_iff [OF t _ n, of random s vol]
  by blast

section \<open>The path simulator: exceptions, totals and the single year\<close>

lemma inflation_Inl_iff:
  "generateRandomizedInflation r n random s vol = Inl e \<longleftrightarrow> e = RangeError \<and> r = 0 \<and> n < 0"
  by (auto simp: generateRandomizedInflation_def split: prod.splits)

lemma length_inflation:
  assumes "generateRandomizedInflation r n random s vol = Inr (rs, s')"
  shows "length rs = nat n"
proof (cases "r = 0")
  case True
  with assms show ?thesis
    by (auto simp: generateRandomizedInflation_def split: if_splits)
next
  case False
  have "length (fst (adjustedLogReturns r n random s vol)) = nat n"
    by (cases "sampleLogs (nlog (nadd (Fin 1) (Fin r))) (Fin vol) random (nat n) s")
       (use length_sampleLogs [of "nlog (nadd (Fin 1) (Fin r))" "Fin vol" random "nat n" s] in
         \<open>simp add: adjustedLogReturns_def Let_def length_adjustLogs del: nlog.simps nadd.simps\<close>)
  with False assms show ?thesis
    by (auto simp: generateRandomizedInflation_def adjustedLogInflations_eq split: prod.splits)
qed

lemma runSimulation_Inl_iff:
  "runSimulation p random s = Inl e
   \<longleftrightarrow> e = RangeError \<and> years p < 0 \<and> SimulationParams.inflationRate p = 0"
proof -
  obtain rets s1 where g: "generateRandomizedReturns (annualReturn p) (years p) random s (3 / 10) = (rets, s1)"
    by (cases "generateRandomizedReturns (annualReturn p) (years p) random s (3 / 10)")
  show ?thesis
    using inflation_Inl_iff [of "SimulationParams.inflationRate p" "years p" random s1 "15 / 1000" e]
    by (cases "generateRandomizedInflation (SimulationParams.inflationRate p) (years p) random s1 (15 / 1000)")
       (auto simp: runSimulation_def g Let_def split: prod.splits)
qed





lemma one_year_run:
  assumes y: "years p = 1"
  shows "\<exists>res s' r. runSimulation p random s = Inr (res, s')
           \<and> fst (generateRandomizedReturns (annualReturn p) 1 random s (3 / 10)) = [r]
           \<and> length (SimulationResult.yearlyData res) = 1
           \<and> map returnRate (SimulationResult.yearlyData res) = [r]
           \<and> finalBalance res
               = nadd (Fin (startingAssets p + initialContribution p))
                      (nmul (Fin (startingAssets p + initialContribution p)) r)"
proof -
  obtain rets s1 where g: "generateRandomizedReturns (annualReturn p) 1 random s (3 / 10) = (rets, s1)"
    by (cases "generateRandomizedReturns (annualReturn p) 1 random s (3 / 10)")
  have "length rets = 1"
    using length_returns [of "annualReturn p" 1 random s "3 / 10"] g by simp
  then obtain r where rets: "rets = [r]"
    by (cases rets) simp_all
  have "\<not> (\<exists>e. generateRandomizedInflation (SimulationParams.inflationRate p) 1 random s1 (15 / 1000) = Inl e)"
    by (simp add: inflation_Inl_iff)
  then obtain infls s2 where
    i: "generateRandomizedInflation (SimulationParams.inflationRate p) 1 random s1 (15 / 1000) = Inr (infls, s2)"
    by (cases "generateRandomizedInflation (SimulationParams.inflationRate p) 1 random s1 (15 / 1000)") auto
  have "runSimulation p random s
        = Inr (let v = yearStep p [r] infls 0 (initialVars p)
               in \<lparr> SimulationResult.yearlyData = LoopVars.yearlyData v,
                          finalBalance = balance v,
                          SimulationResult.totalContributions = LoopVars.totalContributions v,
                          SimulationResult.totalGrowth = LoopVars.totalGrowth v \<rparr>, s2)"
    using g i by (simp add: runSimulation_def y rets Let_def)
  then show ?thesis
    using g by (simp add: rets yearStep_def initialVars_def Let_def)
qed

lemma single_return:
  assumes a: "- 1 < a" and d: "u1InRange (draws random s 2)"
  shows "fst (generateRandomizedReturns a 1 random s vol) = [Fin a]"
proof -
  from returns_Fin [of a 1 random s vol] a d obtain ls where
    n: "length ls = 1" and
    g: "fst (generateRandomizedReturns a 1 random s vol)
        = map (\<lambda>l. Fin (exp (l + (ln (1 + a) * of_int 1 - sum_list ls) / of_int 1) - 1)) ls"
    by auto
  from n obtain l where ls: "ls = [l]" by (cases ls) simp_all
  show ?thesis using a by (simp add: g ls)
qed





section \<open>The entry points: parameters, seeds and the clock\<close>

lemma upt_two: "[0..<2] = [0, Suc 0]"
  by (simp add: numeral_2_eq_2)

lemma draws_two:
  "draws random s 2 = (let (u1, s1) = random s; (u2, s2) = random s1 in [u1, u2])"
  by (simp add: numeral_2_eq_2 split: prod.splits)

lemma empty_run:
  assumes y: "years p \<le> 0" and ok: "years p = 0 \<or> SimulationParams.inflationRate p \<noteq> 0"
  shows "runSimulation p random s
         = Inr (\<lparr> SimulationResult.yearlyData = [], finalBalance = Fin (startingAssets p),
                   SimulationResult.totalContributions = Fin 0,
                   SimulationResult.totalGrowth = Fin 0 \<rparr>, s)"
proof -
  have n: "nat (years p) = 0" using y by simp
  show ?thesis
    using ok
    by (auto simp: runSimulation_def generateRandomizedReturns_def adjustedLogReturns_def
        generateRandomizedInflation_def adjustedLogInflations_def adjustLogs_def n Let_def
        initialVars_def)
qed

lemma runPaths_Inl_iff:
  "runPaths p seed idx = Inl e
   \<longleftrightarrow> idx \<noteq> [] \<and> e = RangeError \<and> years p < 0 \<and> SimulationParams.inflationRate p = 0"
proof (induction idx arbitrary: e)
  case Nil
  show ?case by simp
next
  case (Cons i idx)
  show ?case
  proof (cases "runSimulation p mulberry32 (seed + int i)")
    case (Inl e')
    with runSimulation_Inl_iff [of p mulberry32 "seed + int i" e'] show ?thesis
      by (auto simp: createSeededRandom_def)
  next
    case (Inr rs)
    with runSimulation_Inl_iff [of p mulberry32 "seed + int i"]
    have no: "\<not> (years p < 0 \<and> SimulationParams.inflationRate p = 0)" by auto
    with Cons.IH have "\<And>e. runPaths p seed idx \<noteq> Inl e" by auto
    with Inr no show ?thesis
      by (cases rs; cases "runPaths p seed idx") (auto simp: createSeededRandom_def)
  qed
qed

text \<open>
  C5, amended. The entry points do not check their parameters. \<open>runSimulation\<close> raises
  only for \<open>years < 0\<close> together with an inflation rate of exactly 0, where
  \<open>new Array(years)\<close> raises a \<open>RangeError\<close>, and \<open>runMonteCarloSimulation\<close> only then
  and for a number of paths above 0. Every other record is simulated as it is: with
  \<open>years \<le> 0\<close> the path has no period, the final balance is \<open>startingAssets\<close> and the
  totals are 0; negative amounts and rates of any size are used as they stand.
\<close>

theorem no_validation:
  "(runSimulation p random s = Inl e
      \<longleftrightarrow> e = RangeError \<and> years p < 0 \<and> SimulationParams.inflationRate p = 0)
   \<and> (runMonteCarloSimulation now p m sd = Inl e
      \<longleftrightarrow> e = RangeError \<and> years p < 0 \<and> SimulationParams.inflationRate p = 0
          \<and> 0 < (case m of None \<Rightarrow> 100 | Some k \<Rightarrow> k))
   \<and> (years p \<le> 0 \<and> (years p = 0 \<or> SimulationParams.inflationRate p \<noteq> 0)
       \<longrightarrow> runSimulation p random s
           = Inr (\<lparr> SimulationResult.yearlyData = [], finalBalance = Fin (startingAssets p),
                     SimulationResult.totalContributions = Fin 0,
                     SimulationResult.totalGrowth = Fin 0 \<rparr>, s))"
proof -
  have 1: "runSimulation p random s = Inl e
      \<longleftrightarrow> e = RangeError \<and> years p < 0 \<and> SimulationParams.inflationRate p = 0"
    by (rule runSimulation_Inl_iff)
  have 2: "runMonteCarloSimulation now p m sd = Inl e
      \<longleftrightarrow> e = RangeError \<and> years p < 0 \<and> SimulationParams.inflationRate p = 0
          \<and> 0 < (case m of None \<Rightarrow> 100 | Some k \<Rightarrow> k)"
    by (auto simp: runMonteCarloSimulation_def runPaths_Inl_iff Let_def split: option.splits)
  have 3: "years p \<le> 0 \<and> (years p = 0 \<or> SimulationParams.inflationRate p \<noteq> 0)
       \<longrightarrow> runSimulation p random s
           = Inr (\<lparr> SimulationResult.yearlyData = [], finalBalance = Fin (startingAssets p),
                     SimulationResult.totalContributions = Fin 0,
                     SimulationResult.totalGrowth = Fin 0 \<rparr>, s)"
    using empty_run [of p random s] by blast
  from 1 2 3 show ?thesis by blast
qed

theorem no_validation_witness:
  "runSimulation (outOfRangeParams 0) halfSource () \<noteq> Inl RangeError
   \<and> runMonteCarloSimulation 0 (outOfRangeParams 0) (Some 2) (Some 42) \<noteq> Inl RangeError
   \<and> runSimulation (outOfRangeParams 0) halfSource ()
       = Inr (\<lparr> SimulationResult.yearlyData = [], finalBalance = Fin (- 100),
                 SimulationResult.totalContributions = Fin 0,
                 SimulationResult.totalGrowth = Fin 0 \<rparr>, ())"
  using no_validation [of "outOfRangeParams 0" halfSource "()" RangeError 0 "Some 2" "Some 42"]
  by (simp add: outOfRangeParams_def)

text \<open>
  C5 as stated fails: a record with \<open>years = 0\<close>, negative \<open>startingAssets\<close> and
  \<open>initialContribution\<close> and rates of 1000 and 500 percent gets a result from both entry
  points, and with \<open>years = 1\<close> the negative amounts are simulated.
\<close>

theorem no_validation_counterexample:
  "runSimulation (outOfRangeParams 0) halfSource ()
     = Inr (\<lparr> SimulationResult.yearlyData = [], finalBalance = Fin (- 100),
               SimulationResult.totalContributions = Fin 0,
               SimulationResult.totalGrowth = Fin 0 \<rparr>, ())
   \<and> runMonteCarloSimulation 0 (outOfRangeParams 0) (Some 2) (Some 42)
     = Inr [\<lparr> SimulationResult.yearlyData = [], finalBalance = Fin (- 100),
               SimulationResult.totalContributions = Fin 0,
               SimulationResult.totalGrowth = Fin 0 \<rparr>,
            \<lparr> SimulationResult.yearlyData = [], finalBalance = Fin (- 100),
               SimulationResult.totalContributions = Fin 0,
               SimulationResult.totalGrowth = Fin 0 \<rparr>]
   \<and> runSimulation (outOfRangeParams 1) halfSource ()
     = Inr (\<lparr> SimulationResult.yearlyData =
               [\<lparr> year = 1, startingBalance = Fin (- 100), YearData.contribution = Fin (- 50),
                  returnRate = Fin 10, YearData.inflationRate = Fin 0, growth = Fin (- 1500),
                  endingBalance = Fin (- 1650), YearData.cumulativeInflation = Fin 1,
                  realEndingBalance = Fin (- 1650) \<rparr>],
               finalBalance = Fin (- 1650),
               SimulationResult.totalContributions = Fin (- 50),
               SimulationResult.totalGrowth = Fin (- 1500) \<rparr>, ())"
proof -
  have e: "\<And>random s. runSimulation (outOfRangeParams 0) random s
     = Inr (\<lparr> SimulationResult.yearlyData = [], finalBalance = Fin (- 100),
               SimulationResult.totalContributions = Fin 0,
               SimulationResult.totalGrowth = Fin 0 \<rparr>, s)"
    using empty_run [of "outOfRangeParams 0"] by (simp add: outOfRangeParams_def)
  have 2: "runMonteCarloSimulation 0 (outOfRangeParams 0) (Some 2) (Some 42)
     = Inr [\<lparr> SimulationResult.yearlyData = [], finalBalance = Fin (- 100),
               SimulationResult.totalContributions = Fin 0,
               SimulationResult.totalGrowth = Fin 0 \<rparr>,
            \<lparr> SimulationResult.yearlyData = [], finalBalance = Fin (- 100),
               SimulationResult.totalContributions = Fin 0,
               SimulationResult.totalGrowth = Fin 0 \<rparr>]"
    by (simp add: runMonteCarloSimulation_def e createSeededRandom_def upt_two)
  have 3: "runSimulation (outOfRangeParams 1) halfSource ()
     = Inr (\<lparr> SimulationResult.yearlyData =
               [\<lparr> year = 1, startingBalance = Fin (- 100), YearData.contribution = Fin (- 50),
                  returnRate = Fin 10, YearData.inflationRate = Fin 0, growth = Fin (- 1500),
                  endingBalance = Fin (- 1650), YearData.cumulativeInflation = Fin 1,
                  realEndingBalance = Fin (- 1650) \<rparr>],
               finalBalance = Fin (- 1650),
               SimulationResult.totalContributions = Fin (- 50),
               SimulationResult.totalGrowth = Fin (- 1500) \<rparr>, ())"
    by (simp add: runSimulation_def outOfRangeParams_def generateRandomizedReturns_def
      adjustedLogReturns_def generateRandomizedInflation_def adjustLogs_def boxMuller_def
      halfSource_def nsub_def yearStep_def initialVars_def Let_def)
  from e [of halfSource "()"] 2 3 show ?thesis by simp
qed

text \<open>
  C2. With a seed supplied, the result of \<open>runMonteCarloSimulation\<close> does not depend on
  the clock, the one thing outside its arguments that it can read: for the same
  parameters, number of paths and seed, two calls return the same value.
\<close>

theorem monte_carlo_deterministic:
  "runMonteCarloSimulation now1 params m (Some seed)
   = runMonteCarloSimulation now2 params m (Some seed)"
  by (simp add: runMonteCarloSimulation_def)

text \<open>
  C4, amended. \<open>runMonteCarloSimulation\<close> reads the clock itself when the seed is left
  out: the call then returns what a call with the seed \<open>Date.now()\<close> returns. Only with
  a seed supplied does it read nothing outside its arguments.
\<close>

theorem default_seed_from_clock:
  "runMonteCarloSimulation now params m None = runMonteCarloSimulation now' params m (Some now)"
  by (simp add: runMonteCarloSimulation_def)

lemma one_path:
  assumes y: "years p = 1"
  shows "\<exists>res r. runMonteCarloSimulation now p (Some 1) sd = Inr [res]
           \<and> fst (generateRandomizedReturns (annualReturn p) 1 mulberry32
                    (case sd of None \<Rightarrow> now | Some x \<Rightarrow> x) (3 / 10)) = [r]
           \<and> finalBalance res
               = nadd (Fin (startingAssets p + initialContribution p))
                      (nmul (Fin (startingAssets p + initialContribution p)) r)"
proof -
  from one_year_run [OF y, of mulberry32 "case sd of None \<Rightarrow> now | Some x \<Rightarrow> x"]
  obtain res s' r where
    "runSimulation p mulberry32 (case sd of None \<Rightarrow> now | Some x \<Rightarrow> x) = Inr (res, s')"
    "fst (generateRandomizedReturns (annualReturn p) 1 mulberry32
                    (case sd of None \<Rightarrow> now | Some x \<Rightarrow> x) (3 / 10)) = [r]"
    "finalBalance res
               = nadd (Fin (startingAssets p + initialContribution p))
                      (nmul (Fin (startingAssets p + initialContribution p)) r)"
    by blast
  then show ?thesis
    by (simp add: runMonteCarloSimulation_def createSeededRandom_def)
qed

lemma draws_clock_zero: "draws mulberry32 1763399992843 2 = [0, 1144304738 / 4294967296]"
  by (simp add: draws_two mulberry32_def Let_def)

lemma draws_clock_next: "draws mulberry32 1763399992844 2 = [63 / 4294967296, 2693262067 / 4294967296]"
  by (simp add: draws_two mulberry32_def Let_def)

text \<open>
  C4 as stated fails: two calls without a seed, one millisecond apart, with the same
  parameters and one path return different results. At the first clock value the first
  draw is 0 and the final balance is \<open>NaN\<close>; at the second the first draw is
  \<open>63 / 2 ^ 32\<close> and the final balance is 128400.
\<close>

theorem default_seed_from_clock_counterexample:
  "map_sum id (map finalBalance)
     (runMonteCarloSimulation 1763399992843 (scenario 1) (Some 1) None) = Inr [NaN]
   \<and> map_sum id (map finalBalance)
     (runMonteCarloSimulation 1763399992844 (scenario 1) (Some 1) None) = Inr [Fin 128400]
   \<and> runMonteCarloSimulation 1763399992843 (scenario 1) (Some 1) None
       \<noteq> runMonteCarloSimulation 1763399992844 (scenario 1) (Some 1) None"
proof -
  have y: "years (scenario 1) = 1" by (simp add: scenario_def)
  from one_path [OF y, of 1763399992843 None] obtain resA rA where
    A: "runMonteCarloSimulation 1763399992843 (scenario 1) (Some 1) None = Inr [resA]"
       "fst (generateRandomizedReturns (7 / 100) 1 mulberry32 1763399992843 (3 / 10)) = [rA]"
       "finalBalance resA = nadd (Fin 120000) (nmul (Fin 120000) rA)"
    by (auto simp: scenario_def)
  from one_path [OF y, of 1763399992844 None] obtain resB rB where
    B: "runMonteCarloSimulation 1763399992844 (scenario 1) (Some 1) None = Inr [resB]"
       "fst (generateRandomizedReturns (7 / 100) 1 mulberry32 1763399992844 (3 / 10)) = [rB]"
       "finalBalance resB = nadd (Fin 120000) (nmul (Fin 120000) rB)"
    by (auto simp: scenario_def)
  have "rA = NaN"
    using returns_NaN_iff [of "7 / 100" 1 mulberry32 1763399992843 "3 / 10"] A(2)
    by (simp add: draws_clock_zero)
  then have fa: "finalBalance resA = NaN" using A(3) by simp
  have "rB = Fin (7 / 100)"
    using single_return [of "7 / 100" mulberry32 1763399992844 "3 / 10"] B(2)
    by (simp add: draws_clock_next)
  then have fb: "finalBalance resB = Fin 128400" using B(3) by simp
  from fa fb have "resA \<noteq> resB" by auto
  with A(1) B(1) fa fb show ?thesis by simp
qed

section \<open>A draw of zero at the entry point\<close>

lemma nadd_NaN_right: "nadd a NaN = NaN"
  by (cases a) simp_all

lemma nmul_NaN_right: "nmul a NaN = NaN"
  by (cases a) simp_all

lemma yearStep_NaN:
  assumes "balance v = NaN \<or> rets ! i = NaN"
  shows "balance (yearStep p rets infls i v) = NaN"
  using assms by (auto simp: yearStep_def Let_def nadd_NaN_right nmul_NaN_right)

lemma fold_NaN:
  assumes "balance v = NaN \<or> (\<exists>i<n. rets ! i = NaN)"
  shows "balance (fold (yearStep p rets infls) [0..<n] v) = NaN"
  using assms
proof (induction n)
  case 0
  then show ?case by simp
next
  case (Suc n)
  show ?case
  proof (cases "balance v = NaN \<or> (\<exists>i<n. rets ! i = NaN)")
    case True
    from Suc.IH [OF True] show ?thesis by (simp add: yearStep_NaN)
  next
    case False
    with Suc.prems have "rets ! n = NaN" by (auto simp: less_Suc_eq)
    then show ?thesis by (simp add: yearStep_NaN)
  qed
qed

lemma yearStep_returnRates:
  "map returnRate (LoopVars.yearlyData (yearStep p rets infls i v))
   = map returnRate (LoopVars.yearlyData v) @ [rets ! i]"
  by (simp add: yearStep_def Let_def)

lemma fold_returnRates:
  "map returnRate (LoopVars.yearlyData (fold (yearStep p rets infls) [0..<n] v))
   = map returnRate (LoopVars.yearlyData v) @ map (\<lambda>i. rets ! i) [0..<n]"
  by (induction n) (simp_all add: yearStep_returnRates)

lemma recorded_returns:
  assumes "runSimulation p random s = Inr (res, s')"
  shows "map returnRate (SimulationResult.yearlyData res)
         = fst (generateRandomizedReturns (annualReturn p) (years p) random s (3 / 10))"
    and "NaN \<in> set (fst (generateRandomizedReturns (annualReturn p) (years p) random s (3 / 10)))
         \<Longrightarrow> finalBalance res = NaN"
proof -
  obtain rets s1 where g: "generateRandomizedReturns (annualReturn p) (years p) random s (3 / 10) = (rets, s1)"
    by (cases "generateRandomizedReturns (annualReturn p) (years p) random s (3 / 10)")
  have len: "length rets = nat (years p)"
    using length_returns [of "annualReturn p" "years p" random s "3 / 10"] g by simp
  from assms obtain infls where
    r: "res = (let v = fold (yearStep p rets infls) [0..<nat (years p)] (initialVars p)
              in \<lparr> SimulationResult.yearlyData = LoopVars.yearlyData v,
                          finalBalance = balance v,
                          SimulationResult.totalContributions = LoopVars.totalContributions v,
                          SimulationResult.totalGrowth = LoopVars.totalGrowth v \<rparr>)"
    by (auto simp: runSimulation_def g Let_def split: sum.splits prod.splits)
  have "map (\<lambda>i. rets ! i) [0..<nat (years p)] = rets"
    using len map_nth [of rets] by simp
  then show "map returnRate (SimulationResult.yearlyData res)
         = fst (generateRandomizedReturns (annualReturn p) (years p) random s (3 / 10))"
    by (simp add: r Let_def fold_returnRates g initialVars_def)
  assume "NaN \<in> set (fst (generateRandomizedReturns (annualReturn p) (years p) random s (3 / 10)))"
  then have "\<exists>i<nat (years p). rets ! i = NaN"
    using len by (auto simp: g in_set_conv_nth)
  then have "balance (fold (yearStep p rets infls) [0..<nat (years p)] (initialVars p)) = NaN"
    by (intro fold_NaN) simp
  then show "finalBalance res = NaN" by (simp add: r Let_def)
qed

lemma zero_first_draw:
  assumes "fst (random s) \<le> 0" "0 < k"
  shows "\<not> u1InRange (draws random s (2 * k))"
proof -
  from assms(2) obtain k' where k: "k = Suc k'" by (cases k) simp_all
  obtain u1 s1 where r1: "random s = (u1, s1)" by (cases "random s")
  obtain u2 s2 where r2: "random s1 = (u2, s2)" by (cases "random s1")
  from assms(1) r1 have "u1 \<le> 0" by simp
  then show ?thesis by (simp add: k r1 r2)
qed

lemma degenerate_run:
  assumes y: "0 < years p" and a: "- 1 < annualReturn p"
    and d: "\<not> u1InRange (draws random s (2 * nat (years p)))"
  shows "\<exists>res s'. runSimulation p random s = Inr (res, s')
           \<and> NaN \<in> set (map returnRate (SimulationResult.yearlyData res))
           \<and> finalBalance res = NaN"
proof -
  have "\<not> (\<exists>e. runSimulation p random s = Inl e)"
    using y by (simp add: runSimulation_Inl_iff)
  then obtain res s' where r: "runSimulation p random s = Inr (res, s')"
    by (cases "runSimulation p random s") auto
  have n: "NaN \<in> set (fst (generateRandomizedReturns (annualReturn p) (years p) random s (3 / 10)))"
    using returns_NaN_iff [OF a y, of random s "3 / 10"] d by blast
  from recorded_returns(1) [OF r] n
  have "NaN \<in> set (map returnRate (SimulationResult.yearlyData res))"
    by (simp only:)
  moreover from recorded_returns(2) [OF r n] have "finalBalance res = NaN" .
  ultimately show ?thesis using r by blast
qed

lemma runPaths_Inr:
  assumes "runPaths p seed idx = Inr rs"
  shows "length rs = length idx"
    and "idx \<noteq> [] \<Longrightarrow> \<exists>s'. runSimulation p mulberry32 (seed + int (hd idx)) = Inr (hd rs, s')"
proof -
  show "length rs = length idx"
    using assms
  proof (induction idx arbitrary: rs)
    case Nil
    then show ?case by simp
  next
    case (Cons i idx)
    from Cons.prems obtain r s' rs' where
      "runSimulation p mulberry32 (seed + int i) = Inr (r, s')"
      "runPaths p seed idx = Inr rs'" "rs = r # rs'"
      by (auto simp: createSeededRandom_def split: sum.splits)
    with Cons.IH show ?case by simp
  qed
  assume "idx \<noteq> []"
  then obtain i idx' where i: "idx = i # idx'" by (cases idx) simp_all
  from assms show "\<exists>s'. runSimulation p mulberry32 (seed + int (hd idx)) = Inr (hd rs, s')"
    by (auto simp: i createSeededRandom_def split: sum.splits)
qed

text \<open>
  C3 does not hold of the code. The claim is that both samplers floor \<open>u1\<close> before its
  logarithm is taken, so that no value that is not finite is produced or reaches the
  caller. The code takes the logarithm of the draw as it is, and the seeded generator does
  return 0: it is its first number after the seed 2463401483. The variate is then not
  finite, and each sampler returns \<open>NaN\<close> for a year whose \<open>u1\<close> is 0. At that seed, with
  the parameters of the scenario over 30 years and the default of 100 paths, the first
  path that \<open>runMonteCarloSimulation\<close> returns has \<open>NaN\<close> among its return rates and
  \<open>NaN\<close> as its final balance.
\<close>

theorem zero_draw_reaches_caller:
  "mulberry32 2463401483 = (0, 0)
   \<and> \<not> isFinite (boxMuller 0 0)
   \<and> generateRandomizedReturns (7 / 100) 1 zeroSource () (3 / 10) = ([NaN], ())
   \<and> generateRandomizedInflation (25 / 1000) 1 zeroSource () (15 / 1000) = Inr ([NaN], ())
   \<and> (\<exists>results. runMonteCarloSimulation now (scenario 30) None (Some 2463401483) = Inr results
         \<and> length results = 100
         \<and> NaN \<in> set (map returnRate (SimulationResult.yearlyData (hd results)))
         \<and> finalBalance (hd results) = NaN)"
proof -
  have m: "mulberry32 2463401483 = (0, 0)"
    by (simp add: mulberry32_def)
  have b: "\<not> isFinite (boxMuller 0 0)"
    by (simp add: boxMuller_def)
  have r: "generateRandomizedReturns (7 / 100) 1 zeroSource () (3 / 10) = ([NaN], ())"
    by (simp add: generateRandomizedReturns_def adjustedLogReturns_def adjustLogs_def
        boxMuller_def zeroSource_def nsub_def)
  have i: "generateRandomizedInflation (25 / 1000) 1 zeroSource () (15 / 1000) = Inr ([NaN], ())"
    by (simp add: generateRandomizedInflation_def adjustedLogInflations_def adjustLogs_def
        boxMuller_def zeroSource_def nsub_def)
  have y: "0 < years (scenario 30)" and a: "- 1 < annualReturn (scenario 30)"
    by (simp_all add: scenario_def)
  have "\<not> u1InRange (draws mulberry32 2463401483 (2 * nat (years (scenario 30))))"
    by (rule zero_first_draw) (simp_all add: m scenario_def)
  from degenerate_run [OF y a this] obtain res s' where
    res: "runSimulation (scenario 30) mulberry32 2463401483 = Inr (res, s')"
      "NaN \<in> set (map returnRate (SimulationResult.yearlyData res))"
      "finalBalance res = NaN"
    by blast
  have "\<not> (\<exists>e. runPaths (scenario 30) 2463401483 [0..<100] = Inl e)"
    by (simp add: runPaths_Inl_iff scenario_def)
  then obtain results where
    p: "runPaths (scenario 30) 2463401483 [0..<100] = Inr results"
    by (cases "runPaths (scenario 30) 2463401483 [0..<100]") auto
  have mc: "runMonteCarloSimulation now (scenario 30) None (Some 2463401483) = Inr results"
    by (simp add: runMonteCarloSimulation_def p)
  from runPaths_Inr(1) [OF p] have l: "length results = 100" by simp
  have "[0..<100] \<noteq> []" by simp
  from runPaths_Inr(2) [OF p this] res(1) have "hd results = res"
    by (simp add: upt_rec [of 0 100])
  with res(2,3) mc l have
    "\<exists>results. runMonteCarloSimulation now (scenario 30) None (Some 2463401483) = Inr results
         \<and> length results = 100
         \<and> NaN \<in> set (map returnRate (SimulationResult.yearlyData (hd results)))
         \<and> finalBalance (hd results) = NaN"
    by blast
  with m b r i show ?thesis by blast
qed

section \<open>The totals of a path\<close>










section \<open>The inflation sampler and its floor\<close>

lemma adjusted_Fin:
  assumes a: "- 1 < target" and y: "0 < n"
    and d: "u1InRange (draws random s (2 * nat n))"
  shows "\<exists>ms. length ms = nat n
           \<and> fst (adjustedLogReturns target n random s volatility) = map Fin ms
           \<and> prod_list (map exp ms) = (1 + target) ^ nat n"
proof -
  obtain ls where ls:
    "fst (sampleLogs (Fin (ln (1 + target))) (Fin volatility) random (nat n) s) = map Fin ls"
    "length ls = nat n"
    using sampleLogs_Fin [OF d] by blast
  have tl: "nlog (Fin (1 + target)) = Fin (ln (1 + target))"
    using a by simp
  define ms where "ms = map (\<lambda>l. l + (ln (1 + target) * of_int n - sum_list ls) / of_int n) ls"
  have 1: "fst (adjustedLogReturns target n random s volatility) = map Fin ms"
    using ls(1) y
    by (cases "sampleLogs (Fin (ln (1 + target))) (Fin volatility) random (nat n) s")
       (simp add: adjustedLogReturns_def tl adjustLogs_Fin ms_def comp_def
          Let_def del: nlog.simps)
  have 2: "length ms = nat n" by (simp add: ms_def ls(2))
  have 3: "prod_list (map exp ms) = (1 + target) ^ nat n"
    using compounded_target [OF a y ls(2)] by (simp add: ms_def comp_def)
  from 1 2 3 show ?thesis by blast
qed

lemma floor_factor: "1 + max 0 (exp m - 1) = max 1 (exp (m::real))"
  by (simp add: max_def)

lemma floored_product_ge:
  "prod_list (map exp ms) \<le> prod_list (map (\<lambda>m. max 1 (exp (m::real))) ms)"
proof (induction ms)
  case Nil
  show ?case by simp
next
  case (Cons m ms)
  have "0 \<le> prod_list (map exp ms)"
    by (rule prod_list_nonneg) auto
  then have "exp m * prod_list (map exp ms) \<le> max 1 (exp m) * prod_list (map (\<lambda>m. max 1 (exp m)) ms)"
    using Cons.IH by (intro mult_mono) auto
  then show ?case by simp
qed

lemma prod_exp_pos: "0 < prod_list (map exp (ms::real list))"
  by (induction ms) simp_all

lemma floored_product_eq:
  assumes "\<forall>m\<in>set ms. 0 \<le> (m::real)"
  shows "prod_list (map (\<lambda>m. max 1 (exp m)) ms) = prod_list (map exp ms)"
  using assms by (induction ms) (simp_all add: max_def)

lemma floored_product_less:
  assumes "\<exists>m\<in>set ms. (m::real) < 0"
  shows "prod_list (map exp ms) < prod_list (map (\<lambda>m. max 1 (exp m)) ms)"
  using assms
proof (induction ms)
  case Nil
  then show ?case by simp
next
  case (Cons m ms)
  let ?E = "prod_list (map exp ms)" and ?F = "prod_list (map (\<lambda>m. max 1 (exp m)) ms)"
  have pos: "0 < ?E" by (rule prod_exp_pos)
  have ge: "?E \<le> ?F" by (rule floored_product_ge)
  show ?case
  proof (cases "m < 0")
    case True
    then have "exp m < 1" by simp
    then have "exp m * ?E < 1 * ?E" using pos by (intro mult_strict_right_mono) auto
    also have "\<dots> \<le> max 1 (exp m) * ?F" using ge pos by (intro mult_mono) auto
    finally show ?thesis by simp
  next
    case False
    with Cons.prems have "\<exists>m\<in>set ms. m < 0" by auto
    from Cons.IH [OF this] have lt: "?E < ?F" .
    have "exp m * ?E < exp m * ?F" using lt by simp
    also have "\<dots> \<le> max 1 (exp m) * ?F"
      using pos lt by (intro mult_right_mono) auto
    finally show ?thesis by simp
  qed
qed

text \<open>
  Two runs of the inflation sampler over two years, for the target 1/40 and the
  volatility 3/200. With the draws 1/1024, 0, 1/2, 1/4 the two normal variates are
  \<open>sqrt (2 * ln 1024)\<close> and 0, the adjusted logs are \<open>ln (41/40)\<close> plus and minus
  \<open>3/400 * sqrt (2 * ln 1024)\<close>, and the second is negative: its rate is floored. With
  every draw 1/2 the two variates are equal, both adjusted logs are \<open>ln (41/40)\<close> and
  nothing is floored.
\<close>

lemma draws_four:
  "draws random s 4 = (let (u1, s1) = random s; (u2, s2) = random s1;
                           (u3, s3) = random s2; (u4, s4) = random s3 in [u1, u2, u3, u4])"
  by (simp add: eval_nat_numeral split: prod.splits)

lemma ln_1024_ge_6: "6 \<le> ln (1024::real)"
proof -
  have "exp (6::real) = exp 1 ^ 6"
    using exp_of_nat_mult [of 6 "1::real"] by simp
  also have "\<dots> \<le> 3 ^ 6" by (intro power_mono exp_le) simp
  also have "\<dots> \<le> (1024::real)" by simp
  finally have "exp (6::real) \<le> 1024" .
  then have "ln (exp (6::real)) \<le> ln 1024" by (subst ln_le_cancel_iff) simp_all
  then show ?thesis by simp
qed

lemma tape_adjusted:
  "fst (adjustedLogInflations (1 / 40) 2 tapeSource [1 / 1024, 0, 1 / 2, 1 / 4] (3 / 200))
   = [Fin (ln (41 / 40) + 3 / 400 * sqrt (2 * ln 1024)),
      Fin (ln (41 / 40) - 3 / 400 * sqrt (2 * ln 1024))]"
  by (simp add: adjustedLogInflations_def adjustLogs_def boxMuller_def nsub_def
      eval_nat_numeral Let_def ln_div)

lemma tape_second_negative: "ln (41 / 40) - 3 / 400 * sqrt (2 * ln 1024) < (0::real)"
proof -
  have "ln (1 + 1 / 40) \<le> (1 / 40 :: real)"
    by (rule ln_add_one_self_le_self) simp
  then have l: "ln (41 / 40) \<le> (1 / 40 :: real)" by simp
  have "(10 / 3) ^ 2 < (2 * ln 1024 :: real)"
    using ln_1024_ge_6 by (simp add: power2_eq_square)
  then have "sqrt ((10 / 3) ^ 2) < sqrt (2 * ln 1024)"
    by (rule real_sqrt_less_mono)
  then have "10 / 3 < sqrt (2 * ln 1024)" by simp
  then have "1 / 40 < 3 / 400 * sqrt (2 * ln 1024)" by simp
  with l show ?thesis by linarith
qed

lemma tape_floors:
  "\<not> list_all (nle (Fin 0))
       (rawInflationRates (1 / 40) 2 tapeSource [1 / 1024, 0, 1 / 2, 1 / 4] (3 / 200))"
  using tape_second_negative
  by (simp add: rawInflationRates_def tape_adjusted nsub_def)

lemma half_does_not_floor:
  "rawInflationRates (1 / 40) 2 halfSource () (3 / 200) = [Fin (1 / 40), Fin (1 / 40)]"
  by (simp add: rawInflationRates_def adjustedLogInflations_def adjustLogs_def boxMuller_def
      nsub_def eval_nat_numeral Let_def halfSource_def)

text \<open>
  C8, amended. In exact real arithmetic (finite numbers as reals, \<open>Math.log\<close> and
  \<open>Math.exp\<close> as the mathematical functions): for an inflation target above -1, a number
  of years above 0 and, where the sampler draws at all (the target is not 0), draws \<open>u1\<close>
  in the range \<open>0 < u1 \<le> 1\<close>: every rate that \<open>generateRandomizedInflation\<close> returns is a
  finite number at least 0; the product of all \<open>1 + r\<close> is at least
  \<open>(1 + inflationRate) ^ years\<close>; it is equal to it when no rate before the floor is
  negative (and when the target is 0), and greater when one is. In floating point, when
  nothing is floored, the product agrees with \<open>(1 + inflationRate) ^ years\<close> up to rounding
  only, which can leave it on either side; the theorem does not state how closely.
\<close>

theorem inflation_floor:
  assumes t: "- 1 < target" and n: "0 < n"
    and d: "target = 0 \<or> u1InRange (draws random s (2 * nat n))"
  shows "\<exists>rs s'. generateRandomizedInflation target n random s vol = Inr (map Fin rs, s')
           \<and> length rs = nat n
           \<and> (\<forall>r\<in>set rs. 0 \<le> r)
           \<and> (1 + target) ^ nat n \<le> prod_list (map (\<lambda>r. 1 + r) rs)
           \<and> (target = 0 \<or> list_all (nle (Fin 0)) (rawInflationRates target n random s vol)
                \<longrightarrow> prod_list (map (\<lambda>r. 1 + r) rs) = (1 + target) ^ nat n)
           \<and> (target \<noteq> 0 \<and> \<not> list_all (nle (Fin 0)) (rawInflationRates target n random s vol)
                \<longrightarrow> (1 + target) ^ nat n < prod_list (map (\<lambda>r. 1 + r) rs))"
proof (cases "target = 0")
  case True
  have "generateRandomizedInflation target n random s vol
        = Inr (map Fin (replicate (nat n) 0), s)"
    using True n by (simp add: generateRandomizedInflation_def)
  moreover have "prod_list (map (\<lambda>r. 1 + r) (replicate (nat n) (0::real))) = 1"
    by (induction "nat n") simp_all
  ultimately show ?thesis using True
    by (intro exI [of _ "replicate (nat n) 0"] exI [of _ s]) simp
next
  case False
  with d have d': "u1InRange (draws random s (2 * nat n))" by simp
  from adjusted_Fin [OF t n d', of vol] obtain ms where
    len: "length ms = nat n"
    and adj: "fst (adjustedLogReturns target n random s vol) = map Fin ms"
    and prod: "prod_list (map exp ms) = (1 + target) ^ nat n"
    by blast
  obtain s' where s': "adjustedLogReturns target n random s vol = (map Fin ms, s')"
    using adj by (cases "adjustedLogReturns target n random s vol") simp
  define rs where "rs = map (\<lambda>m. max 0 (exp m - 1)) ms"
  have g: "generateRandomizedInflation target n random s vol = Inr (map Fin rs, s')"
    using False s'
    by (simp add: generateRandomizedInflation_def adjustedLogInflations_eq rs_def nsub_def
        comp_def)
  have raw: "rawInflationRates target n random s vol = map (\<lambda>m. Fin (exp m - 1)) ms"
    by (simp add: rawInflationRates_def adjustedLogInflations_eq adj nsub_def comp_def)
  have rawok: "list_all (nle (Fin 0)) (rawInflationRates target n random s vol)
               \<longleftrightarrow> (\<forall>m\<in>set ms. 0 \<le> m)"
    by (simp add: raw list_all_iff)
  have fac: "map (\<lambda>r. 1 + r) rs = map (\<lambda>m. max 1 (exp m)) ms"
    by (simp add: rs_def comp_def floor_factor)
  have 1: "length rs = nat n" by (simp add: rs_def len)
  have 2: "\<forall>r\<in>set rs. 0 \<le> r" by (auto simp: rs_def)
  have 3: "(1 + target) ^ nat n \<le> prod_list (map (\<lambda>r. 1 + r) rs)"
    using floored_product_ge [of ms] by (simp only: fac prod)
  have 4: "list_all (nle (Fin 0)) (rawInflationRates target n random s vol)
           \<longrightarrow> prod_list (map (\<lambda>r. 1 + r) rs) = (1 + target) ^ nat n"
    using floored_product_eq [of ms] by (simp add: rawok fac prod)
  have 5: "\<not> list_all (nle (Fin 0)) (rawInflationRates target n random s vol)
           \<longrightarrow> (1 + target) ^ nat n < prod_list (map (\<lambda>r. 1 + r) rs)"
  proof
    assume "\<not> list_all (nle (Fin 0)) (rawInflationRates target n random s vol)"
    then have "\<exists>m\<in>set ms. m < 0" by (force simp: rawok not_le)
    from floored_product_less [OF this] show "(1 + target) ^ nat n < prod_list (map (\<lambda>r. 1 + r) rs)"
      by (simp only: fac prod)
  qed
  from g 1 2 3 4 5 False show ?thesis by blast
qed

theorem inflation_floor_witness:
  "(\<exists>rs s'. generateRandomizedInflation (1 / 40) 2 tapeSource [1 / 1024, 0, 1 / 2, 1 / 4] (3 / 200)
               = Inr (map Fin rs, s')
      \<and> length rs = 2
      \<and> (\<forall>r\<in>set rs. 0 \<le> r)
      \<and> (1 + 1 / 40) ^ 2 < prod_list (map (\<lambda>r. 1 + r) rs))
   \<and> \<not> list_all (nle (Fin 0))
         (rawInflationRates (1 / 40) 2 tapeSource [1 / 1024, 0, 1 / 2, 1 / 4] (3 / 200))
   \<and> (\<exists>rs s'. generateRandomizedInflation (1 / 40) 2 halfSource () (3 / 200)
               = Inr (map Fin rs, s')
      \<and> length rs = 2
      \<and> (\<forall>r\<in>set rs. 0 \<le> r)
      \<and> prod_list (map (\<lambda>r. 1 + r) rs) = (1 + 1 / 40) ^ 2)
   \<and> list_all (nle (Fin 0)) (rawInflationRates (1 / 40) 2 halfSource () (3 / 200))"
proof -
  have dt: "u1InRange (draws tapeSource [1 / 1024, 0, 1 / 2, 1 / 4] (2 * nat 2))"
    by (simp add: draws_four)
  have dh: "u1InRange (draws halfSource () (2 * nat 2))"
    by (simp add: draws_four halfSource_def)
  have nf: "list_all (nle (Fin 0)) (rawInflationRates (1 / 40) 2 halfSource () (3 / 200))"
    by (simp add: half_does_not_floor)
  from inflation_floor [of "1 / 40" 2 tapeSource "[1 / 1024, 0, 1 / 2, 1 / 4]" "3 / 200"]
    dt tape_floors
  have 1: "\<exists>rs s'. generateRandomizedInflation (1 / 40) 2 tapeSource [1 / 1024, 0, 1 / 2, 1 / 4] (3 / 200)
               = Inr (map Fin rs, s')
      \<and> length rs = 2
      \<and> (\<forall>r\<in>set rs. 0 \<le> r)
      \<and> (1 + 1 / 40) ^ 2 < prod_list (map (\<lambda>r. 1 + r) rs)"
    by auto
  from inflation_floor [of "1 / 40" 2 halfSource "()" "3 / 200"] dh nf
  have 2: "\<exists>rs s'. generateRandomizedInflation (1 / 40) 2 halfSource () (3 / 200)
               = Inr (map Fin rs, s')
      \<and> length rs = 2
      \<and> (\<forall>r\<in>set rs. 0 \<le> r)
      \<and> prod_list (map (\<lambda>r. 1 + r) rs) = (1 + 1 / 40) ^ 2"
    by auto
  from 1 tape_floors 2 nf show ?thesis by blast
qed

text \<open>
  C8 as stated fails where a draw \<open>u1\<close> is 0 and where the target is below -1: the rate
  returned is \<open>NaN\<close>, and \<open>0 <= NaN\<close> is false. Neither failure depends on rounding.
\<close>

theorem inflation_floor_counterexample:
  "generateRandomizedInflation (25 / 1000) 1 zeroSource () (15 / 1000) = Inr ([NaN], ())
   \<and> \<not> nle (Fin 0) NaN
   \<and> generateRandomizedInflation (- 2) 1 halfSource () (15 / 1000) = Inr ([NaN], ())"
  by (simp add: generateRandomizedInflation_def adjustedLogInflations_def adjustLogs_def
      boxMuller_def zeroSource_def halfSource_def nsub_def)

section \<open>The percentile aggregator: order and length\<close>

lemma nle_refl: "a \<noteq> NaN \<Longrightarrow> nle a a"
  by (cases a) simp_all

lemma nle_trans: "nle a b \<Longrightarrow> nle b c \<Longrightarrow> nle a c"
  by (cases a; cases b; cases c) simp_all

lemma not_positive_nle: "a \<noteq> NaN \<Longrightarrow> b \<noteq> NaN \<Longrightarrow> \<not> positive (nsub a b) \<Longrightarrow> nle a b"
  by (cases a; cases b) (simp_all add: nsub_def)

lemma positive_nle: "positive (nsub a b) \<Longrightarrow> nle b a"
  by (cases a; cases b) (simp_all add: nsub_def)

lemma set_insertAscending: "set (insertAscending a bs) = insert a (set bs)"
  by (induction bs) auto

lemma length_insertAscending: "length (insertAscending a bs) = Suc (length bs)"
  by (induction bs) simp_all

lemma sorted_insertAscending:
  assumes "sorted_wrt nle bs" "a \<noteq> NaN" "NaN \<notin> set bs"
  shows "sorted_wrt nle (insertAscending a bs)"
  using assms
proof (induction bs)
  case Nil
  show ?case by simp
next
  case (Cons b bs)
  show ?case
  proof (cases "positive (nsub a b)")
    case True
    from Cons have "sorted_wrt nle (insertAscending a bs)" by simp
    moreover have "nle b a" using True by (rule positive_nle)
    ultimately show ?thesis using True Cons.prems(1)
      by (simp add: set_insertAscending)
  next
    case False
    from Cons.prems have "b \<noteq> NaN" by auto
    with False Cons.prems(2) have ab: "nle a b" by (simp add: not_positive_nle)
    have "\<forall>x\<in>set bs. nle a x"
      using Cons.prems(1) ab by (auto intro: nle_trans)
    with ab False Cons.prems(1) show ?thesis by simp
  qed
qed

lemma sortAscending_Cons: "sortAscending (x # xs) = insertAscending x (sortAscending xs)"
  by (simp add: sortAscending_def)

lemma set_sortAscending: "set (sortAscending xs) = set xs"
  by (induction xs) (simp_all add: sortAscending_def set_insertAscending)

lemma length_sortAscending: "length (sortAscending xs) = length xs"
  by (induction xs) (simp_all add: sortAscending_def length_insertAscending)

lemma sorted_sortAscending: "NaN \<notin> set xs \<Longrightarrow> sorted_wrt nle (sortAscending xs)"
proof (induction xs)
  case Nil
  show ?case by (simp add: sortAscending_def)
next
  case (Cons x xs)
  from Cons.prems have x: "x \<noteq> NaN" and xs: "NaN \<notin> set xs" by auto
  from Cons.IH [OF xs] x xs show ?case
    by (simp add: sortAscending_Cons sorted_insertAscending set_sortAscending)
qed

lemma sorted_nth_nle:
  assumes "sorted_wrt nle xs" "NaN \<notin> set xs" "i \<le> j" "j < length xs"
  shows "nle (xs ! i) (xs ! j)"
proof (cases "i = j")
  case True
  with assms show ?thesis by (auto intro: nle_refl simp: in_set_conv_nth)
next
  case False
  with assms have "i < j" by simp
  with assms show ?thesis by (simp add: sorted_wrt_nth_less)
qed

lemma index_range:
  assumes "0 \<le> p" "p \<le> q" "0 < M"
  shows "0 \<le> min \<lfloor>p / 100 * real M\<rfloor> (int M - 1)"
    and "min \<lfloor>p / 100 * real M\<rfloor> (int M - 1) \<le> min \<lfloor>q / 100 * real M\<rfloor> (int M - 1)"
    and "min \<lfloor>q / 100 * real M\<rfloor> (int M - 1) < int M"
proof -
  have "0 \<le> p / 100 * real M" using assms by simp
  then have "0 \<le> \<lfloor>p / 100 * real M\<rfloor>" by simp
  then show "0 \<le> min \<lfloor>p / 100 * real M\<rfloor> (int M - 1)" using assms(3) by simp
  have "p / 100 * real M \<le> q / 100 * real M"
    using assms by (intro mult_right_mono divide_right_mono) simp_all
  then have "\<lfloor>p / 100 * real M\<rfloor> \<le> \<lfloor>q / 100 * real M\<rfloor>" by (rule floor_mono)
  then show "min \<lfloor>p / 100 * real M\<rfloor> (int M - 1) \<le> min \<lfloor>q / 100 * real M\<rfloor> (int M - 1)"
    by (simp add: min_def)
  show "min \<lfloor>q / 100 * real M\<rfloor> (int M - 1) < int M" by simp
qed

lemma picks_ordered:
  assumes s: "sorted_wrt nle xs" and nn: "NaN \<notin> set xs" and ne: "xs \<noteq> []"
    and p: "0 \<le> p" "p \<le> q"
  shows "jsLe (arrayRead xs (min \<lfloor>p / 100 * real (length xs)\<rfloor> (int (length xs) - 1)))
              (arrayRead xs (min \<lfloor>q / 100 * real (length xs)\<rfloor> (int (length xs) - 1)))"
proof -
  let ?M = "length xs"
  let ?i = "min \<lfloor>p / 100 * real ?M\<rfloor> (int ?M - 1)"
  let ?j = "min \<lfloor>q / 100 * real ?M\<rfloor> (int ?M - 1)"
  have M: "0 < ?M" using ne by simp
  note r = index_range [OF p M]
  have i: "0 \<le> ?i" "?i < int ?M" using r by linarith+
  have j: "0 \<le> ?j" "?j < int ?M" using r by linarith+
  have "nat ?i \<le> nat ?j" "nat ?j < ?M" using r i j by linarith+
  from sorted_nth_nle [OF s nn this] have "nle (xs ! nat ?i) (xs ! nat ?j)" .
  then show ?thesis using i j by (simp add: arrayRead_def)
qed

lemma yearEndBalances_Inr:
  assumes "yearEndBalances sims u t = Inr bs"
  shows "length bs = length sims
       \<and> set bs \<subseteq> (\<Union>sim\<in>set sims. shownBalance u ` set (SimulationResult.yearlyData sim))"
  using assms
proof (induction sims arbitrary: bs)
  case Nil
  then show ?case by simp
next
  case (Cons sim sims)
  from Cons.prems have t: "t < length (SimulationResult.yearlyData sim)"
    by (simp split: if_splits)
  with Cons.prems obtain bs' where
    bs': "yearEndBalances sims u t = Inr bs'"
    and bs: "bs = shownBalance u (SimulationResult.yearlyData sim ! t) # bs'"
    by (auto simp: shownBalance_def split: sum.splits)
  from Cons.IH [OF bs'] t show ?case
    by (auto simp: bs)
qed

lemma yearEndBalances_total:
  assumes "\<forall>sim\<in>set sims. t < length (SimulationResult.yearlyData sim)"
  shows "\<exists>bs. yearEndBalances sims u t = Inr bs"
  using assms by (induction sims) auto

lemma yearEndBalances_notNaN:
  assumes "balancesNotNaN sims u" "yearEndBalances sims u t = Inr bs"
  shows "NaN \<notin> set bs"
proof
  assume "NaN \<in> set bs"
  with yearEndBalances_Inr [OF assms(2)] obtain sim yd where
    m: "sim \<in> set sims" "yd \<in> set (SimulationResult.yearlyData sim)"
    and e: "NaN = shownBalance u yd"
    by auto
  from assms(1) m have "shownBalance u yd \<noteq> NaN"
    by (auto simp: balancesNotNaN_def list_all_iff)
  with e show False by simp
qed

lemma percentileBalances_length:
  "percentileBalances sims u p ts = Inr row \<Longrightarrow> length row = length ts"
proof (induction ts arbitrary: row)
  case Nil
  then show ?case by simp
next
  case (Cons t ts)
  from Cons.prems obtain bs where bs: "yearEndBalances sims u t = Inr bs"
    by (cases "yearEndBalances sims u t") simp_all
  from Cons.prems bs obtain row' where
    row': "percentileBalances sims u p ts = Inr row'" and "length row = Suc (length row')"
    by (cases "percentileBalances sims u p ts") (auto simp: Let_def)
  with Cons.IH [OF row'] show ?case by simp
qed

lemma percentileBalances_total:
  assumes "\<forall>t\<in>set ts. \<forall>sim\<in>set sims. t < length (SimulationResult.yearlyData sim)"
  shows "\<exists>row. percentileBalances sims u p ts = Inr row"
  using assms
proof (induction ts)
  case Nil
  show ?case by simp
next
  case (Cons t ts)
  from Cons.prems yearEndBalances_total [of sims t u] obtain bs where
    bs: "yearEndBalances sims u t = Inr bs" by auto
  from Cons obtain row where "percentileBalances sims u p ts = Inr row" by auto
  with bs show ?case by (simp add: Let_def)
qed

lemma rows_ordered:
  assumes nn: "balancesNotNaN sims u" and ne: "sims \<noteq> []" and p: "0 \<le> p" "p \<le> q"
    and rp: "percentileBalances sims u p ts = Inr rp"
    and rq: "percentileBalances sims u q ts = Inr rq"
  shows "list_all2 jsLe rp rq"
  using rp rq
proof (induction ts arbitrary: rp rq)
  case Nil
  then show ?case by simp
next
  case (Cons t ts)
  from Cons.prems(1) obtain bs where bs: "yearEndBalances sims u t = Inr bs"
    by (cases "yearEndBalances sims u t") simp_all
  let ?xs = "sortAscending bs"
  from Cons.prems(1) bs obtain rp' where
    rp': "percentileBalances sims u p ts = Inr rp'"
    and rpe: "rp = arrayRead ?xs (min \<lfloor>p / 100 * real (length ?xs)\<rfloor> (int (length ?xs) - 1)) # rp'"
    by (cases "percentileBalances sims u p ts") (auto simp: Let_def)
  from Cons.prems(2) bs obtain rq' where
    rq': "percentileBalances sims u q ts = Inr rq'"
    and rqe: "rq = arrayRead ?xs (min \<lfloor>q / 100 * real (length ?xs)\<rfloor> (int (length ?xs) - 1)) # rq'"
    by (cases "percentileBalances sims u q ts") (auto simp: Let_def)
  have nnb: "NaN \<notin> set ?xs"
    using yearEndBalances_notNaN [OF nn bs] by (simp add: set_sortAscending)
  have srt: "sorted_wrt nle ?xs"
    using yearEndBalances_notNaN [OF nn bs] by (rule sorted_sortAscending)
  have "length ?xs = length sims"
    using yearEndBalances_Inr [OF bs] by (simp add: length_sortAscending)
  with ne have nex: "?xs \<noteq> []" by auto
  from picks_ordered [OF srt nnb nex p] Cons.IH [OF rp' rq'] show ?case
    by (simp add: rpe rqe)
qed

lemma percentileLoop_Inr:
  assumes "percentileLoop sims u n ps m0 = Inr m"
  shows "(p \<in> set ps \<longrightarrow> (\<exists>row. percentileBalances sims u p [0..<n] = Inr row \<and> m p = Some row))
       \<and> (p \<notin> set ps \<longrightarrow> m p = m0 p)"
  using assms
proof (induction ps arbitrary: m0)
  case Nil
  then show ?case by simp
next
  case (Cons p0 ps)
  from Cons.prems obtain row0 where
    row0: "percentileBalances sims u p0 [0..<n] = Inr row0"
    and rest: "percentileLoop sims u n ps (m0(p0 \<mapsto> row0)) = Inr m"
    by (cases "percentileBalances sims u p0 [0..<n]") simp_all
  from Cons.IH [OF rest] row0 show ?case
    by (cases "p = p0") auto
qed

lemma percentileLoop_total:
  assumes "\<forall>p\<in>set ps. \<exists>row. percentileBalances sims u p [0..<n] = Inr row"
  shows "\<exists>m. percentileLoop sims u n ps m0 = Inr m"
  using assms
proof (induction ps arbitrary: m0)
  case Nil
  show ?case by simp
next
  case (Cons p0 ps)
  from Cons.prems obtain row0 where "percentileBalances sims u p0 [0..<n] = Inr row0" by auto
  moreover from Cons have "\<exists>m. percentileLoop sims u n ps (m0(p0 \<mapsto> row0)) = Inr m" by auto
  ultimately show ?case by simp
qed

lemma calculatePercentiles_empty: "calculatePercentiles [] ps u = Inl TypeError"
  by (simp add: calculatePercentiles_def)

lemma calculatePercentiles_nonempty:
  "sims \<noteq> [] \<Longrightarrow>
   calculatePercentiles sims ps u
   = percentileLoop sims u (length (SimulationResult.yearlyData (hd sims))) ps Map.empty"
  by (cases sims) (simp_all add: calculatePercentiles_def)

text \<open>
  C10. \<open>calculatePercentiles\<close> fails on the empty list of results (the read of
  \<open>simulations[0].yearlyData\<close> raises). On a list that is not empty and whose paths all
  have the number of periods of the first, it returns a map with an entry for every
  percentile asked for and no other, and every sequence in it has that number of periods.
\<close>

theorem percentiles_partial:
  "calculatePercentiles [] ps u = Inl TypeError
   \<and> (sims \<noteq> []
        \<and> (\<forall>sim\<in>set sims. length (SimulationResult.yearlyData sim)
                               = length (SimulationResult.yearlyData (hd sims)))
      \<longrightarrow> (\<exists>m. calculatePercentiles sims ps u = Inr m \<and> dom m = set ps
             \<and> (\<forall>p\<in>set ps. \<exists>row. m p = Some row
                    \<and> length row = length (SimulationResult.yearlyData (hd sims)))))"
proof (intro conjI impI)
  show "calculatePercentiles [] ps u = Inl TypeError"
    by (rule calculatePercentiles_empty)
next
  assume a: "sims \<noteq> []
        \<and> (\<forall>sim\<in>set sims. length (SimulationResult.yearlyData sim)
                               = length (SimulationResult.yearlyData (hd sims)))"
  define n where "n = length (SimulationResult.yearlyData (hd sims))"
  from a have ne: "sims \<noteq> []" by (rule conjunct1)
  from a have eq: "\<forall>sim\<in>set sims. length (SimulationResult.yearlyData sim) = n"
    unfolding n_def by (rule conjunct2)
  from ne have c: "calculatePercentiles sims ps u = percentileLoop sims u n ps Map.empty"
    unfolding n_def by (rule calculatePercentiles_nonempty)
  have "\<forall>t\<in>set [0..<n]. \<forall>sim\<in>set sims. t < length (SimulationResult.yearlyData sim)"
    using eq by simp
  then have tot: "\<forall>p\<in>set ps. \<exists>row. percentileBalances sims u p [0..<n] = Inr row"
    using percentileBalances_total [of "[0..<n]" sims u] by blast
  from percentileLoop_total [OF tot, of Map.empty] obtain m where
    m: "percentileLoop sims u n ps Map.empty = Inr m" by blast
  note r = percentileLoop_Inr [OF m]
  have d: "dom m = set ps"
  proof (rule set_eqI)
    fix p
    show "p \<in> dom m \<longleftrightarrow> p \<in> set ps" using r [of p] by (cases "p \<in> set ps") auto
  qed
  have l: "\<forall>p\<in>set ps. \<exists>row. m p = Some row \<and> length row = n"
  proof
    fix p assume "p \<in> set ps"
    with r [of p] obtain row where "percentileBalances sims u p [0..<n] = Inr row" "m p = Some row"
      by auto
    with percentileBalances_length [of sims u p "[0..<n]" row] show "\<exists>row. m p = Some row \<and> length row = n"
      by simp
  qed
  from c m have cm: "calculatePercentiles sims ps u = Inr m" by (rule trans)
  from l have l': "\<forall>p\<in>set ps. \<exists>row. m p = Some row
                    \<and> length row = length (SimulationResult.yearlyData (hd sims))"
    unfolding n_def .
  show "\<exists>m. calculatePercentiles sims ps u = Inr m \<and> dom m = set ps
             \<and> (\<forall>p\<in>set ps. \<exists>row. m p = Some row
                    \<and> length row = length (SimulationResult.yearlyData (hd sims)))"
    by (rule exI [of _ m]) (intro conjI cm d l')
qed

theorem percentiles_partial_witness:
  "calculatePercentiles [] [10, 90] False = Inl TypeError
   \<and> (\<exists>m. calculatePercentiles [flatPath 2, flatPath 1] [10, 90] False = Inr m
          \<and> dom m = {10, 90}
          \<and> (\<exists>row. m 10 = Some row \<and> length row = 1)
          \<and> (\<exists>row. m 90 = Some row \<and> length row = 1))"
  using percentiles_partial [of "[10, 90]" False "[flatPath 2, flatPath 1]"]
  by (simp add: flatPath_def)

text \<open>
  C7, amended. For a list of results whose balances of the view asked for are not
  \<open>NaN\<close>, and the percentiles 10, 25, 50, 75 and 90: when \<open>calculatePercentiles\<close>
  returns, its five sequences have the number of periods of the first path and are ordered
  at every period, \<open>p10[t] <= p25[t] <= p50[t] <= p75[t] <= p90[t]\<close>, in the nominal and
  in the real view.
\<close>

theorem percentile_ordering:
  assumes nn: "balancesNotNaN sims u"
    and c: "calculatePercentiles sims [10, 25, 50, 75, 90] u = Inr m"
  shows "\<exists>p10 p25 p50 p75 p90.
           m 10 = Some p10 \<and> m 25 = Some p25 \<and> m 50 = Some p50 \<and> m 75 = Some p75
         \<and> m 90 = Some p90
         \<and> length p10 = length (SimulationResult.yearlyData (hd sims))
         \<and> length p25 = length p10 \<and> length p50 = length p10
         \<and> length p75 = length p10 \<and> length p90 = length p10
         \<and> (\<forall>t<length p10. jsLe (p10 ! t) (p25 ! t) \<and> jsLe (p25 ! t) (p50 ! t)
                           \<and> jsLe (p50 ! t) (p75 ! t) \<and> jsLe (p75 ! t) (p90 ! t))"
proof -
  let ?n = "length (SimulationResult.yearlyData (hd sims))"
  have ne: "sims \<noteq> []"
  proof
    assume "sims = []"
    with c calculatePercentiles_empty [of "[10, 25, 50, 75, 90]" u] show False
      by (simp only: sum.distinct)
  qed
  have l: "percentileLoop sims u ?n [10, 25, 50, 75, 90] Map.empty = Inr m"
    using c by (simp only: calculatePercentiles_nonempty [OF ne])
  note r = percentileLoop_Inr [OF l]
  from r [of 10] obtain p10 where p10: "percentileBalances sims u 10 [0..<?n] = Inr p10" "m 10 = Some p10" by auto
  from r [of 25] obtain p25 where p25: "percentileBalances sims u 25 [0..<?n] = Inr p25" "m 25 = Some p25" by auto
  from r [of 50] obtain p50 where p50: "percentileBalances sims u 50 [0..<?n] = Inr p50" "m 50 = Some p50" by auto
  from r [of 75] obtain p75 where p75: "percentileBalances sims u 75 [0..<?n] = Inr p75" "m 75 = Some p75" by auto
  from r [of 90] obtain p90 where p90: "percentileBalances sims u 90 [0..<?n] = Inr p90" "m 90 = Some p90" by auto
  have len: "length p10 = ?n" "length p25 = ?n" "length p50 = ?n" "length p75 = ?n" "length p90 = ?n"
    using percentileBalances_length [OF p10(1)] percentileBalances_length [OF p25(1)]
      percentileBalances_length [OF p50(1)] percentileBalances_length [OF p75(1)]
      percentileBalances_length [OF p90(1)] by simp_all
  have o1: "list_all2 jsLe p10 p25" by (rule rows_ordered [OF nn ne _ _ p10(1) p25(1)]) simp_all
  have o2: "list_all2 jsLe p25 p50" by (rule rows_ordered [OF nn ne _ _ p25(1) p50(1)]) simp_all
  have o3: "list_all2 jsLe p50 p75" by (rule rows_ordered [OF nn ne _ _ p50(1) p75(1)]) simp_all
  have o4: "list_all2 jsLe p75 p90" by (rule rows_ordered [OF nn ne _ _ p75(1) p90(1)]) simp_all
  have "\<forall>t<length p10. jsLe (p10 ! t) (p25 ! t) \<and> jsLe (p25 ! t) (p50 ! t)
                           \<and> jsLe (p50 ! t) (p75 ! t) \<and> jsLe (p75 ! t) (p90 ! t)"
    using o1 o2 o3 o4 len by (simp add: list_all2_conv_all_nth)
  with p10(2) p25(2) p50(2) p75(2) p90(2) len show ?thesis by simp
qed

lemma example_percentiles:
  "calculatePercentiles [flatPath 2, flatPath 1] [10, 25, 50, 75, 90] True
   = Inr [10 \<mapsto> [Some (Fin 1)], 25 \<mapsto> [Some (Fin 1)], 50 \<mapsto> [Some (Fin 2)],
          75 \<mapsto> [Some (Fin 2)], 90 \<mapsto> [Some (Fin 2)]]"
  by (simp add: calculatePercentiles_def flatPath_def sortAscending_def arrayRead_def nsub_def)

theorem percentile_ordering_witness:
  "\<exists>p10 p25 p50 p75 p90.
      [10 \<mapsto> [Some (Fin 1)], 25 \<mapsto> [Some (Fin 1)], 50 \<mapsto> [Some (Fin 2)],
       75 \<mapsto> [Some (Fin 2)], 90 \<mapsto> [Some (Fin 2)]] (10::real) = Some p10
    \<and> [10 \<mapsto> [Some (Fin 1)], 25 \<mapsto> [Some (Fin 1)], 50 \<mapsto> [Some (Fin 2)],
       75 \<mapsto> [Some (Fin 2)], 90 \<mapsto> [Some (Fin 2)]] (90::real) = Some p90
    \<and> length p10 = 1
    \<and> jsLe (p10 ! 0) (p90 ! 0)"
proof -
  have nn: "balancesNotNaN [flatPath 2, flatPath 1] True"
    by (simp add: balancesNotNaN_def flatPath_def shownBalance_def)
  from percentile_ordering [OF nn example_percentiles] show ?thesis
    by (simp add: flatPath_def)
qed

text \<open>
  C7 as stated fails on a list with a \<open>NaN\<close> balance, such as the path that
  \<open>runSimulation\<close> returns when the source draws 0. With that path alone every
  percentile of the period is \<open>NaN\<close>, and \<open>NaN <= NaN\<close> is false. With a second path
  that ends at 5, in either order, one of the 25th and the 50th percentile is \<open>NaN\<close> and
  the other is 5, and \<open>p25[0] <= p50[0]\<close> is false.
\<close>

theorem percentile_ordering_counterexample:
  "runSimulation (scenario 1) zeroSource () = Inr (degeneratePath, ())
   \<and> calculatePercentiles [degeneratePath] [10, 25, 50, 75, 90] False
       = Inr [10 \<mapsto> [Some NaN], 25 \<mapsto> [Some NaN], 50 \<mapsto> [Some NaN],
              75 \<mapsto> [Some NaN], 90 \<mapsto> [Some NaN]]
   \<and> \<not> jsLe (Some NaN) (Some NaN)
   \<and> calculatePercentiles [degeneratePath, flatPath 5] [10, 25, 50, 75, 90] False
       = Inr [10 \<mapsto> [Some NaN], 25 \<mapsto> [Some NaN], 50 \<mapsto> [Some (Fin 5)],
              75 \<mapsto> [Some (Fin 5)], 90 \<mapsto> [Some (Fin 5)]]
   \<and> \<not> jsLe (Some NaN) (Some (Fin 5))
   \<and> calculatePercentiles [flatPath 5, degeneratePath] [10, 25, 50, 75, 90] False
       = Inr [10 \<mapsto> [Some (Fin 5)], 25 \<mapsto> [Some (Fin 5)], 50 \<mapsto> [Some NaN],
              75 \<mapsto> [Some NaN], 90 \<mapsto> [Some NaN]]
   \<and> \<not> jsLe (Some (Fin 5)) (Some NaN)"
  by (simp add: calculatePercentiles_def degeneratePath_def flatPath_def sortAscending_def
      arrayRead_def runSimulation_def scenario_def generateRandomizedReturns_def
      adjustedLogReturns_def generateRandomizedInflation_def adjustedLogInflations_def
      adjustLogs_def boxMuller_def zeroSource_def nsub_def yearStep_def initialVars_def)

end
